theory Spec2Isabelle
  imports
    Main
    "HOL-Library.Word"
    "HOL-Library.Multiset"
    "HOL-Library.Char_ord"
    "HOL-Library.List_Lexorder"
begin

section \<open>Data model of main.go\<close>

text \<open>
  Go's \<open>int\<close> is taken at its 64-bit width: addition wraps around, \<open>sint\<close> reads the
  signed value. Strings are byte sequences, compared byte by byte (the order of
  \<open>Char_ord\<close> and \<open>List_Lexorder\<close>).
\<close>

type_synonym goint = "64 word"

record specimen =
  OriginalName :: string
  VernacularName :: string
  WikidataItemId :: string
  CommonsCategoryName :: string
  FileCount :: goint
  SubCats :: goint
  SubCatsFileCounts :: goint
  TotalFiles :: goint
  Treatment :: string
  AccessionNumber :: string
  SpecimenCategory :: string

record categoryInfo =
  files :: goint
  subCats :: goint
  subCatsFiles :: goint

text \<open>
  A decoded JSON value held in an \<open>interface{}\<close>. A number carries the integer that
  the conversion \<open>int(v.(float64))\<close> yields.
\<close>

datatype jvalue = JNumber int | JString string | JOther

record wdqResult =
  Status_Error :: string
  Props :: "string \<rightharpoonup> jvalue list list"

text \<open>
  One page object of a Commons answer: what \<open>GetString("title")\<close>,
  \<open>GetInt64("categoryinfo", "files")\<close> and \<open>GetInt64("categoryinfo", "subcats")\<close>
  return, \<open>None\<close> where the call returns an error.
\<close>

record page =
  title :: "string option"
  ci_files :: "goint option"
  ci_subcats :: "goint option"

text \<open>
  One answer of a paginated query: what \<open>GetObjectArray("query", "pages")\<close> returns,
  \<open>None\<close> for an error.
\<close>

type_synonym response = "page list option"

record editParameters =
  p_title :: string
  p_section :: string
  p_text :: string
  p_summary :: string
  p_notminor :: string

text \<open>Every way the process stops early: \<open>log.Fatal\<close> through \<open>check\<close>, or a panic.\<close>

datatype error =
    CsvError
  | TransportError
  | WdqError string
  | HttpStatus int
  | IndexOutOfRange
  | TypeAssertion
  | SliceBounds
  | JsonError
  | TemplateReadError
  | TemplateParseError
  | TemplateExecError
  | EditError

text \<open>
  The collaborators of a run. A paginated Commons query is the finite list of answers
  that \<open>q.Next()\<close> walks through; a parsed template is the function that \<open>Execute\<close>
  runs: the text it wrote to the buffer and the error it returned, if any.
  Go's \<open>range\<close> visits every key of the map of groups once, in an order the
  language leaves open: \<open>rangeOrder\<close> is the rank that a run gives to each key, and
  the keys are visited by ascending rank.
\<close>

record services =
  wdqGet :: "string \<Rightarrow> string \<Rightarrow> error + (int \<times> wdqResult)"
  commonsCategoryinfo :: "string \<Rightarrow> response list"
  commonsSubcats :: "string \<Rightarrow> response list"
  rangeOrder :: "string \<Rightarrow> nat"
  readTemplate :: "error + string"
  parseTemplate :: "string \<Rightarrow> error + (specimen list \<Rightarrow> string \<times> error option)"
  wikiEdit :: "editParameters \<Rightarrow> error option"
  pageTitle :: string
  sectionNumber :: string

section \<open>Constants and library functions\<close>

definition COMMONS_CAT_PROPERTY :: string where
  "COMMONS_CAT_PROPERTY = ''373''"

definition CATEGORY_NAMESPACE :: string where
  "CATEGORY_NAMESPACE = ''Category:''"

text \<open>\<open>strings.TrimPrefix\<close>, \<open>strings.Join\<close> and \<open>strconv.Itoa\<close>.\<close>

definition TrimPrefix :: "string \<Rightarrow> string \<Rightarrow> string" where
  "TrimPrefix s p = (if take (length p) s = p then drop (length p) s else s)"

fun Join :: "string list \<Rightarrow> string \<Rightarrow> string" where
  "Join [] sep = []"
| "Join [x] sep = x"
| "Join (x # y # ys) sep = x @ sep @ Join (y # ys) sep"

definition digit :: "nat \<Rightarrow> char" where
  "digit n = ''0123456789'' ! n"

fun utoa :: "nat \<Rightarrow> string" where
  "utoa n = (if n < 10 then [digit n] else utoa (n div 10) @ [digit (n mod 10)])"

definition Itoa :: "int \<Rightarrow> string" where
  "Itoa i = (if i < 0 then CHR ''-'' # utoa (nat (- i)) else utoa (nat i))"

text \<open>
  A slice expression \<open>a[lo:hi]\<close>. The run-time check is against the capacity; every
  slice taken in this program has \<open>hi\<close> at most the length, which is what the model
  checks.
\<close>

definition slice :: "'a list \<Rightarrow> int \<Rightarrow> int \<Rightarrow> error + 'a list" where
  "slice a lo hi =
     (if 0 \<le> lo \<and> lo \<le> hi \<and> hi \<le> int (length a)
      then Inr (take (nat (hi - lo)) (drop (nat lo) a))
      else Inl SliceBounds)"

text \<open>Reading a key of a Go map: the zero value when the key is absent.\<close>

definition lookupGroup :: "(string \<rightharpoonup> specimen list) \<Rightarrow> string \<Rightarrow> specimen list" where
  "lookupGroup m k = (case m k of None \<Rightarrow> [] | Some v \<Rightarrow> v)"

definition zeroInfo :: categoryInfo where
  "zeroInfo = \<lparr>files = 0, subCats = 0, subCatsFiles = 0\<rparr>"

definition lookupInfo :: "(string \<rightharpoonup> categoryInfo) \<Rightarrow> string \<Rightarrow> categoryInfo" where
  "lookupInfo m k = (case m k of None \<Rightarrow> zeroInfo | Some v \<Rightarrow> v)"

section \<open>readCsvFile\<close>

text \<open>
  The input is the sequence of records the CSV reader yields. With
  \<open>FieldsPerRecord = 9\<close> a record of another length is an error, which \<open>check\<close>
  makes fatal.
\<close>

definition mkSpecimen :: "string list \<Rightarrow> specimen" where
  "mkSpecimen r =
     \<lparr>OriginalName = r ! 0, VernacularName = r ! 1, WikidataItemId = r ! 7,
      CommonsCategoryName = [], FileCount = 0, SubCats = 0, SubCatsFileCounts = 0,
      TotalFiles = 0, Treatment = r ! 2 @ '' / '' @ r ! 3, AccessionNumber = r ! 6,
      SpecimenCategory = r ! 8\<rparr>"

fun readCsvFile :: "string list list \<Rightarrow> error + specimen list" where
  "readCsvFile [] = Inr []"
| "readCsvFile (r # rest) =
     (if length r \<noteq> 9 then Inl CsvError
      else case readCsvFile rest of
             Inl e \<Rightarrow> Inl e
           | Inr ss \<Rightarrow> Inr (mkSpecimen r # ss))"

section \<open>queryWdq: grouping by Wikidata item\<close>

definition groupKey :: "specimen \<Rightarrow> string" where
  "groupKey i = TrimPrefix (WikidataItemId i) ''Q''"

fun groupLoop ::
  "specimen list \<Rightarrow> string list \<times> (string \<rightharpoonup> specimen list)
     \<Rightarrow> string list \<times> (string \<rightharpoonup> specimen list)" where
  "groupLoop [] st = st"
| "groupLoop (i # rest) (wikidataIds, specimensByWikidataId) =
     (let wikidataId = groupKey i
      in groupLoop rest
           (wikidataIds @ [wikidataId],
            specimensByWikidataId
              (wikidataId \<mapsto> lookupGroup specimensByWikidataId wikidataId @ [i])))"

section \<open>queryWdq: the loop on the WDQ result\<close>

record wdqState =
  byId :: "string \<rightharpoonup> specimen list"
  categoryNames :: "string list"
  cursor :: int
  commonsQueries :: "string list list"

text \<open>
  \<open>commonsQueries\<close> holds, for each channel the source appends, the slice of names
  handed to the \<open>queryCommons\<close> task started with it.
\<close>

definition setCategory :: "string \<Rightarrow> specimen \<Rightarrow> specimen" where
  "setCategory categoryName s = s\<lparr>CommonsCategoryName := CATEGORY_NAMESPACE @ categoryName\<rparr>"

definition setGroupCategory ::
  "(string \<rightharpoonup> specimen list) \<Rightarrow> string \<Rightarrow> string \<Rightarrow> (string \<rightharpoonup> specimen list)" where
  "setGroupCategory m k categoryName =
     (case m k of None \<Rightarrow> m | Some itemSpecimens \<Rightarrow> m(k \<mapsto> map (setCategory categoryName) itemSpecimens))"

definition index :: "'a list \<Rightarrow> nat \<Rightarrow> error + 'a" where
  "index a n = (if n < length a then Inr (a ! n) else Inl IndexOutOfRange)"

text \<open>\<open>itemProp[0].(float64)\<close> and \<open>itemProp[2].(string)\<close>, each of which may panic.\<close>

definition rowFields :: "jvalue list \<Rightarrow> error + (int \<times> string)" where
  "rowFields itemProp =
     (case index itemProp 0 of
        Inl e \<Rightarrow> Inl e
      | Inr (JNumber itemId) \<Rightarrow>
          (case index itemProp 2 of
             Inl e \<Rightarrow> Inl e
           | Inr (JString categoryName) \<Rightarrow> Inr (itemId, categoryName)
           | Inr _ \<Rightarrow> Inl TypeAssertion)
      | Inr _ \<Rightarrow> Inl TypeAssertion)"

definition wdqRow :: "int \<Rightarrow> jvalue list \<Rightarrow> wdqState \<Rightarrow> error + wdqState" where
  "wdqRow i itemProp st =
     (case rowFields itemProp of
        Inl e \<Rightarrow> Inl e
      | Inr (itemId, categoryName) \<Rightarrow>
          (let st1 = st\<lparr>byId := setGroupCategory (byId st) (Itoa itemId) categoryName,
                        categoryNames := categoryNames st @ [CATEGORY_NAMESPACE @ categoryName]\<rparr>
           in if i > 0 \<and> i mod 50 = 0
              then (case slice (categoryNames st1) (i - 50) i of
                      Inl e \<Rightarrow> Inl e
                    | Inr names \<Rightarrow>
                        Inr (st1\<lparr>cursor := i,
                                 commonsQueries := commonsQueries st1 @ [names]\<rparr>))
              else Inr st1))"

fun wdqLoop :: "int \<Rightarrow> jvalue list list \<Rightarrow> wdqState \<Rightarrow> error + wdqState" where
  "wdqLoop i [] st = Inr st"
| "wdqLoop i (itemProp # rest) st =
     (case wdqRow i itemProp st of
        Inl e \<Rightarrow> Inl e
      | Inr st' \<Rightarrow> wdqLoop (i + 1) rest st')"

text \<open>The loop, then the last query with the remaining names.\<close>

definition dispatch :: "(string \<rightharpoonup> specimen list) \<Rightarrow> jvalue list list \<Rightarrow> error + wdqState" where
  "dispatch groups rows =
     (case wdqLoop 0 rows \<lparr>byId = groups, categoryNames = [], cursor = 0, commonsQueries = []\<rparr> of
        Inl e \<Rightarrow> Inl e
      | Inr st \<Rightarrow>
          (case slice (categoryNames st) (cursor st) (int (length (categoryNames st))) of
             Inl e \<Rightarrow> Inl e
           | Inr names \<Rightarrow> Inr (st\<lparr>commonsQueries := commonsQueries st @ [names]\<rparr>)))"

section \<open>queryCommonsSubcats\<close>

fun sumPages :: "page list \<Rightarrow> goint \<Rightarrow> goint" where
  "sumPages [] totalFiles = totalFiles"
| "sumPages (p # ps) totalFiles =
     sumPages ps (case ci_files p of Some n \<Rightarrow> totalFiles + n | None \<Rightarrow> totalFiles)"

fun subcatsLoop :: "response list \<Rightarrow> goint \<Rightarrow> error + goint" where
  "subcatsLoop [] totalFiles = Inr totalFiles"
| "subcatsLoop (resp # rest) totalFiles =
     (case resp of
        None \<Rightarrow> Inl JsonError
      | Some pages \<Rightarrow> subcatsLoop rest (sumPages pages totalFiles))"

definition queryCommonsSubcats :: "services \<Rightarrow> string \<Rightarrow> error + goint" where
  "queryCommonsSubcats env categoryName = subcatsLoop (commonsSubcats env categoryName) 0"

section \<open>queryCommons\<close>

definition pageInfo :: "(string \<rightharpoonup> categoryInfo) \<Rightarrow> string \<Rightarrow> page \<Rightarrow> categoryInfo" where
  "pageInfo categoryMembers t p =
     (lookupInfo categoryMembers t)
       \<lparr>files := (case ci_files p of Some n \<Rightarrow> n | None \<Rightarrow> 0),
        subCats := (case ci_subcats p of Some n \<Rightarrow> n | None \<Rightarrow> 0)\<rparr>"

definition pageStep ::
  "services \<Rightarrow> (string \<rightharpoonup> categoryInfo) \<Rightarrow> page \<Rightarrow> error + (string \<rightharpoonup> categoryInfo)" where
  "pageStep env categoryMembers p =
     (case title p of
        None \<Rightarrow> Inl JsonError
      | Some t \<Rightarrow>
          (let thisCategoryInfo = pageInfo categoryMembers t p
           in if 0 <s subCats thisCategoryInfo
              then (case queryCommonsSubcats env t of
                      Inl e \<Rightarrow> Inl e
                    | Inr n \<Rightarrow> Inr (categoryMembers(t \<mapsto> thisCategoryInfo\<lparr>subCatsFiles := n\<rparr>)))
              else Inr (categoryMembers(t \<mapsto> thisCategoryInfo))))"

fun pagesLoop ::
  "services \<Rightarrow> page list \<Rightarrow> (string \<rightharpoonup> categoryInfo) \<Rightarrow> error + (string \<rightharpoonup> categoryInfo)" where
  "pagesLoop env [] categoryMembers = Inr categoryMembers"
| "pagesLoop env (p # ps) categoryMembers =
     (case pageStep env categoryMembers p of
        Inl e \<Rightarrow> Inl e
      | Inr m \<Rightarrow> pagesLoop env ps m)"

fun responsesLoop ::
  "services \<Rightarrow> response list \<Rightarrow> (string \<rightharpoonup> categoryInfo) \<Rightarrow> error + (string \<rightharpoonup> categoryInfo)" where
  "responsesLoop env [] categoryMembers = Inr categoryMembers"
| "responsesLoop env (resp # rest) categoryMembers =
     (case resp of
        None \<Rightarrow> Inl JsonError
      | Some pages \<Rightarrow>
          (case pagesLoop env pages categoryMembers of
             Inl e \<Rightarrow> Inl e
           | Inr m \<Rightarrow> responsesLoop env rest m))"

definition queryCommons ::
  "services \<Rightarrow> (string \<rightharpoonup> categoryInfo) \<Rightarrow> string list \<Rightarrow> error + (string \<rightharpoonup> categoryInfo)" where
  "queryCommons env categoryMembers names =
     responsesLoop env (commonsCategoryinfo env (Join names ''|'')) categoryMembers"

text \<open>
  The tasks started by \<open>go queryCommons\<close> share one map and run concurrently; the model
  runs them one after the other, in the order they were started.
\<close>

fun runQueries ::
  "services \<Rightarrow> string list list \<Rightarrow> (string \<rightharpoonup> categoryInfo) \<Rightarrow> error + (string \<rightharpoonup> categoryInfo)" where
  "runQueries env [] categoryMembers = Inr categoryMembers"
| "runQueries env (names # rest) categoryMembers =
     (case queryCommons env categoryMembers names of
        Inl e \<Rightarrow> Inl e
      | Inr m \<Rightarrow> runQueries env rest m)"

section \<open>queryWdq: merging the Commons information into the specimens\<close>

definition mergeSpecimen :: "(string \<rightharpoonup> categoryInfo) \<Rightarrow> specimen \<Rightarrow> specimen" where
  "mergeSpecimen categoryMembers s =
     (let thisCategoryInfo = lookupInfo categoryMembers (CommonsCategoryName s);
          s1 = s\<lparr>FileCount := files thisCategoryInfo,
                 SubCats := subCats thisCategoryInfo,
                 SubCatsFileCounts := subCatsFiles thisCategoryInfo\<rparr>
      in s1\<lparr>TotalFiles := FileCount s1 + SubCatsFileCounts s1\<rparr>)"

text \<open>The records sent on \<open>updatedSpecimens\<close>, the keys of the map visited in the order \<open>ks\<close>.\<close>

definition merger ::
  "(string \<rightharpoonup> categoryInfo) \<Rightarrow> (string \<rightharpoonup> specimen list) \<Rightarrow> string list \<Rightarrow> specimen list" where
  "merger categoryMembers specimensByWikidataId ks =
     concat (map (\<lambda>k. map (mergeSpecimen categoryMembers) (lookupGroup specimensByWikidataId k)) ks)"

text \<open>
  The keys of \<open>specimensByWikidataId\<close> as \<open>range\<close> visits them: the keys are the
  distinct identifiers of the first loop, each visited once, by ascending rank.
\<close>

definition rangeKeys :: "services \<Rightarrow> string list \<Rightarrow> string list" where
  "rangeKeys env wikidataIds = sort_key (rangeOrder env) (remdups wikidataIds)"

definition lookupRows :: "(string \<rightharpoonup> jvalue list list) \<Rightarrow> string \<Rightarrow> jvalue list list" where
  "lookupRows m k = (case m k of None \<Rightarrow> [] | Some v \<Rightarrow> v)"

definition queryWdq :: "services \<Rightarrow> specimen list \<Rightarrow> error + specimen list" where
  "queryWdq env specimens =
     (case groupLoop specimens ([], Map.empty) of
        (wikidataIds, specimensByWikidataId) \<Rightarrow>
          (case wdqGet env (''ITEMS['' @ Join wikidataIds '','' @ '']'') COMMONS_CAT_PROPERTY of
             Inl e \<Rightarrow> Inl e
           | Inr (status, result) \<Rightarrow>
               if status = 200
               then if Status_Error result \<noteq> ''OK''
                    then Inl (WdqError (Status_Error result))
                    else (case dispatch specimensByWikidataId
                                 (lookupRows (Props result) COMMONS_CAT_PROPERTY) of
                            Inl e \<Rightarrow> Inl e
                          | Inr st \<Rightarrow>
                              (case runQueries env (commonsQueries st) Map.empty of
                                 Inl e \<Rightarrow> Inl e
                               | Inr categoryMembers \<Rightarrow>
                                   Inr (merger categoryMembers (byId st)
                                          (rangeKeys env wikidataIds))))
               else Inl (HttpStatus status)))"

section \<open>updateWikiPage\<close>

text \<open>The methods of \<open>byOriginalName\<close>.\<close>

definition Len :: "specimen list \<Rightarrow> nat" where
  "Len a = length a"

definition Swap :: "specimen list \<Rightarrow> nat \<Rightarrow> nat \<Rightarrow> specimen list" where
  "Swap a i j = a[i := a ! j, j := a ! i]"

definition Less :: "specimen list \<Rightarrow> nat \<Rightarrow> nat \<Rightarrow> bool" where
  "Less a i j = (OriginalName (a ! i) < OriginalName (a ! j))"

text \<open>
  \<open>sort.Sort\<close> is Go's library: it orders the slice through \<open>Len\<close>, \<open>Less\<close> and
  \<open>Swap\<close> alone. The model is the library's insertion sort, the routine it uses on
  short slices:
  \<^verbatim>\<open>for i := a + 1; i < b; i++ { for j := i; j > a && data.Less(j, j-1); j-- { data.Swap(j, j-1) } }\<close>
\<close>

fun sink :: "specimen list \<Rightarrow> nat \<Rightarrow> specimen list" where
  "sink a 0 = a"
| "sink a (Suc j) = (if Less a (Suc j) j then sink (Swap a (Suc j) j) j else a)"

fun insertionSort :: "nat \<Rightarrow> nat \<Rightarrow> specimen list \<Rightarrow> specimen list" where
  "insertionSort 0 i a = a"
| "insertionSort (Suc n) i a = insertionSort n (Suc i) (sink a i)"

definition sortSort :: "specimen list \<Rightarrow> specimen list" where
  "sortSort a = insertionSort (Len a - 1) 1 a"

definition summary :: string where
  "summary = ''Mise '' @ [CHR 0xC3, CHR 0xA0] @ '' jour''"

definition updateWikiPage :: "services \<Rightarrow> specimen list \<Rightarrow> error + editParameters" where
  "updateWikiPage env specimens =
     (let specimensBuffer = sortSort specimens
      in case readTemplate env of
           Inl e \<Rightarrow> Inl e
         | Inr templateBytes \<Rightarrow>
             (case parseTemplate env templateBytes of
                Inl e \<Rightarrow> Inl e
              | Inr tableTemplate \<Rightarrow>
                  (let buf = fst (tableTemplate specimensBuffer);
                       parameters = \<lparr>p_title = pageTitle env, p_section = sectionNumber env,
                                     p_text = buf, p_summary = summary, p_notminor = []\<rparr>
                   in case wikiEdit env parameters of
                        Some e \<Rightarrow> Inl e
                      | None \<Rightarrow> Inr parameters)))"

section \<open>The whole run\<close>

definition run :: "services \<Rightarrow> string list list \<Rightarrow> error + editParameters" where
  "run env records =
     (case readCsvFile records of
        Inl e \<Rightarrow> Inl e
      | Inr specimens \<Rightarrow>
          (case queryWdq env specimens of
             Inl e \<Rightarrow> Inl e
           | Inr updatedSpecimens \<Rightarrow> updateWikiPage env updatedSpecimens))"

section \<open>Notions used in the properties\<close>

text \<open>A row of the WDQ answer that the loop reads without a panic, and the name it adds.\<close>

definition rowOk :: "jvalue list \<Rightarrow> bool" where
  "rowOk itemProp = (case rowFields itemProp of Inl e \<Rightarrow> False | Inr f \<Rightarrow> True)"

definition rowCategory :: "jvalue list \<Rightarrow> string" where
  "rowCategory itemProp =
     (case rowFields itemProp of Inl e \<Rightarrow> [] | Inr f \<Rightarrow> CATEGORY_NAMESPACE @ snd f)"

definition initState :: "(string \<rightharpoonup> specimen list) \<Rightarrow> wdqState" where
  "initState groups = \<lparr>byId = groups, categoryNames = [], cursor = 0, commonsQueries = []\<rparr>"

text \<open>
  The invariant of the loop on the WDQ result, before the row of index \<open>i\<close>: the
  queries started so far are the names before \<open>cursor\<close>, fifty by fifty, and between
  one and fifty names wait after it (none before the first row).
\<close>

definition winv :: "int \<Rightarrow> wdqState \<Rightarrow> bool" where
  "winv i st \<longleftrightarrow>
     int (length (categoryNames st)) = i \<and>
     cursor st = 50 * int (length (commonsQueries st)) \<and>
     concat (commonsQueries st) = take (nat (cursor st)) (categoryNames st) \<and>
     (\<forall>c \<in> set (commonsQueries st). length c = 50) \<and>
     (i = 0 \<or> cursor st < i) \<and> i - cursor st \<le> 50 \<and> cursor st \<le> i"

text \<open>How many times a name is handed to a \<open>queryCommons\<close> task.\<close>

definition timesQueried :: "string \<Rightarrow> error + wdqState \<Rightarrow> nat" where
  "timesQueried n r =
     (case r of Inl e \<Rightarrow> 0 | Inr st \<Rightarrow> count_list (concat (commonsQueries st)) n)"

text \<open>Two catalog rows of one species under two Wikidata items.\<close>

definition lionQ1 :: specimen where
  "lionQ1 = mkSpecimen [''Panthera leo'', ''Lion'', ''mounted'', ''adult'', [], [], ''A1'', ''Q1'', ''Cat A'']"

definition lionQ2 :: specimen where
  "lionQ2 = mkSpecimen [''Felis leo'', ''Lion'', ''skin'', ''adult'', [], [], ''A2'', ''Q2'', ''Cat B'']"

text \<open>
  The category name that the WDQ answer gives for a key: that of the last row whose
  item number, in decimal, is the key.
\<close>

fun resolved :: "jvalue list list \<Rightarrow> string \<Rightarrow> string option" where
  "resolved [] k = None"
| "resolved (r # rows) k =
     (case resolved rows k of
        Some n \<Rightarrow> Some n
      | None \<Rightarrow>
          (case rowFields r of
             Inl e \<Rightarrow> None
           | Inr f \<Rightarrow> if Itoa (fst f) = k then Some (snd f) else None))"

definition rowKey :: "jvalue list \<Rightarrow> string" where
  "rowKey r = (case rowFields r of Inl e \<Rightarrow> [] | Inr f \<Rightarrow> Itoa (fst f))"

definition resolvedName :: "jvalue list list \<Rightarrow> string \<Rightarrow> string" where
  "resolvedName rows k = (case resolved rows k of None \<Rightarrow> [] | Some n \<Rightarrow> CATEGORY_NAMESPACE @ n)"

definition resolve :: "jvalue list list \<Rightarrow> string \<Rightarrow> specimen \<Rightarrow> specimen" where
  "resolve rows k s = (case resolved rows k of None \<Rightarrow> s | Some n \<Rightarrow> setCategory n s)"

text \<open>The category names carried by the records of a group after the loop.\<close>

definition categoriesOf :: "string \<Rightarrow> error + wdqState \<Rightarrow> string list" where
  "categoriesOf k r =
     (case r of Inl e \<Rightarrow> [] | Inr st \<Rightarrow> map CommonsCategoryName (lookupGroup (byId st) k))"

text \<open>The catalog of the two rows above.\<close>

definition catalog :: "string list list" where
  "catalog =
     [[''Panthera leo'', ''Lion'', ''mounted'', ''adult'', [], [], ''A1'', ''Q1'', ''Cat A''],
      [''Felis leo'', ''Lion'', ''skin'', ''adult'', [], [], ''A2'', ''Q2'', ''Cat B'']]"

text \<open>A row of the WDQ answer: item 1 has the Commons category Foo.\<close>

definition fooItem :: "jvalue list" where
  "fooItem = [JNumber 1, JOther, JString ''Foo'']"

text \<open>
  Services for the examples: WDQ resolves item 1 to the category Foo; the two Commons
  queries answer with the given lists.
\<close>

definition sampleServices :: "response list \<Rightarrow> response list \<Rightarrow> services" where
  "sampleServices infos subcats =
     \<lparr>wdqGet = (\<lambda>q props. Inr (200, \<lparr>Status_Error = ''OK'', Props = [''373'' \<mapsto> [fooItem]]\<rparr>)),
      commonsCategoryinfo = (\<lambda>titles. infos),
      commonsSubcats = (\<lambda>name. subcats),
      rangeOrder = (\<lambda>key. 0),
      readTemplate = Inr [],
      parseTemplate = (\<lambda>bytes. Inr (\<lambda>specimens. ([], None))),
      wikiEdit = (\<lambda>parameters. None),
      pageTitle = ''Page'',
      sectionNumber = ''1''\<rparr>"

definition negativeCount :: services where
  "negativeCount =
     sampleServices [Some [\<lparr>title = Some ''Category:Foo'', ci_files = Some (- 1), ci_subcats = None\<rparr>]] []"

text \<open>The own file counts of the records a run of \<open>queryWdq\<close> sends on, as signed numbers.\<close>

definition ownFileCounts :: "error + specimen list \<Rightarrow> int list" where
  "ownFileCounts r = (case r of Inl e \<Rightarrow> [] | Inr ss \<Rightarrow> map (\<lambda>s. sint (FileCount s)) ss)"

text \<open>The four statistics of a record are zero.\<close>

definition zeroStatistics :: "specimen \<Rightarrow> bool" where
  "zeroStatistics r \<longleftrightarrow>
     FileCount r = 0 \<and> SubCats r = 0 \<and> SubCatsFileCounts r = 0 \<and> TotalFiles r = 0"

text \<open>The file counts and subcategory sums held in the index are not negative.\<close>

definition nonNegative :: "(string \<rightharpoonup> categoryInfo) \<Rightarrow> bool" where
  "nonNegative m \<longleftrightarrow> (\<forall>c \<in> ran m. 0 \<le>s files c \<and> 0 \<le>s subCatsFiles c)"

text \<open>The index and the resolved record of the scenario: Foo has 3 files and one subcategory with 2 files.\<close>

definition fooIndex :: "string \<rightharpoonup> categoryInfo" where
  "fooIndex = [''Category:Foo'' \<mapsto> \<lparr>files = 3, subCats = 1, subCatsFiles = 2\<rparr>]"

definition lionFoo :: specimen where
  "lionFoo = lionQ1\<lparr>CommonsCategoryName := ''Category:Foo''\<rparr>"

text \<open>The statistics service reports a page with an empty title.\<close>

definition emptyTitle :: services where
  "emptyTitle = sampleServices [Some [\<lparr>title = Some [], ci_files = Some 3, ci_subcats = None\<rparr>]] []"

text \<open>
  The statistics service reports the category Foo in two answers of one paginated
  query: first with one subcategory (which holds 2 files), then without category
  information.
\<close>

definition repeatedTitle :: services where
  "repeatedTitle =
     sampleServices
       [Some [\<lparr>title = Some ''Category:Foo'', ci_files = Some 3, ci_subcats = Some 1\<rparr>],
        Some [\<lparr>title = Some ''Category:Foo'', ci_files = None, ci_subcats = None\<rparr>]]
       [Some [\<lparr>title = Some ''Category:Foo cubs'', ci_files = Some 2, ci_subcats = None\<rparr>]]"

text \<open>The entry of a category in the index that a query leaves.\<close>

definition storedInfo :: "string \<Rightarrow> error + (string \<rightharpoonup> categoryInfo) \<Rightarrow> categoryInfo option" where
  "storedInfo k r = (case r of Inl e \<Rightarrow> None | Inr m \<Rightarrow> m k)"

text \<open>No page that the statistics service reports has the empty title.\<close>

definition noEmptyTitle :: "services \<Rightarrow> bool" where
  "noEmptyTitle env \<longleftrightarrow>
     (\<forall>titles. \<forall>resp \<in> set (commonsCategoryinfo env titles).
        \<forall>pages. resp = Some pages \<longrightarrow> (\<forall>p \<in> set pages. title p \<noteq> Some []))"

text \<open>Services whose template stops with an error after writing the head of the table.\<close>

definition failingTemplate :: services where
  "failingTemplate =
     (sampleServices [] [])
       \<lparr>parseTemplate := (\<lambda>bytes. Inr (\<lambda>specimens. (''{| class=wikitable'', Some TemplateExecError)))\<rparr>"

text \<open>The parameters of the edit that \<open>updateWikiPage\<close> submits with a text.\<close>

definition editWith :: "services \<Rightarrow> string \<Rightarrow> editParameters" where
  "editWith env buf =
     \<lparr>p_title = pageTitle env, p_section = sectionNumber env, p_text = buf,
      p_summary = summary, p_notminor = []\<rparr>"

text \<open>
  The statistics service reports no negative file count, and no sum of
  \<open>queryCommonsSubcats\<close> wraps around to a negative number.
\<close>

definition nonNegativeReports :: "services \<Rightarrow> bool" where
  "nonNegativeReports env \<longleftrightarrow>
     (\<forall>titles. \<forall>resp \<in> set (commonsCategoryinfo env titles).
        \<forall>pages. resp = Some pages \<longrightarrow> (\<forall>p \<in> set pages. \<forall>n. ci_files p = Some n \<longrightarrow> 0 \<le>s n)) \<and>
     (\<forall>name n. queryCommonsSubcats env name = Inr n \<longrightarrow> 0 \<le>s n)"

text \<open>The scenario: the category Foo has 3 files and one subcategory, which has 2 files.\<close>

definition fooSubcat :: services where
  "fooSubcat =
     sampleServices
       [Some [\<lparr>title = Some ''Category:Foo'', ci_files = Some 3, ci_subcats = Some 1\<rparr>]]
       [Some [\<lparr>title = Some ''Category:Foo cubs'', ci_files = Some 2, ci_subcats = None\<rparr>]]"

text \<open>
  A record carries the statistics that the index holds for its category name (zero
  when the name is absent), and their total.
\<close>

definition carriesIndex :: "(string \<rightharpoonup> categoryInfo) \<Rightarrow> specimen \<Rightarrow> bool" where
  "carriesIndex m r \<longleftrightarrow>
     FileCount r = files (lookupInfo m (CommonsCategoryName r)) \<and>
     SubCats r = subCats (lookupInfo m (CommonsCategoryName r)) \<and>
     SubCatsFileCounts r = subCatsFiles (lookupInfo m (CommonsCategoryName r)) \<and>
     TotalFiles r = files (lookupInfo m (CommonsCategoryName r))
                      + subCatsFiles (lookupInfo m (CommonsCategoryName r))"

text \<open>Services that report the category Foo with 3 files and no subcategory.\<close>

definition fooOnly :: services where
  "fooOnly =
     sampleServices [Some [\<lparr>title = Some ''Category:Foo'', ci_files = Some 3, ci_subcats = None\<rparr>]] []"

text \<open>Two pages about the category Foo, and the index after the first one.\<close>

definition fooPage :: "goint \<Rightarrow> page" where
  "fooPage n = \<lparr>title = Some ''Category:Foo'', ci_files = Some n, ci_subcats = None\<rparr>"

text \<open>The rows that a run reads: those of the property 373 in an answer of WDQ with status 200 and no error.\<close>

definition answerRows :: "services \<Rightarrow> specimen list \<Rightarrow> jvalue list list \<Rightarrow> bool" where
  "answerRows env specimens rows \<longleftrightarrow>
     (\<exists>result.
        wdqGet env (''ITEMS['' @ Join (fst (groupLoop specimens ([], Map.empty))) '','' @ '']'')
          COMMONS_CAT_PROPERTY = Inr (200, result) \<and>
        Status_Error result = ''OK'' \<and>
        rows = lookupRows (Props result) COMMONS_CAT_PROPERTY)"

text \<open>The titles of the pages in the answers of a paginated query, in order.\<close>

definition reportedTitles :: "response list \<Rightarrow> string list" where
  "reportedTitles rs =
     concat (map (\<lambda>r. case r of
                         None \<Rightarrow> []
                       | Some pages \<Rightarrow>
                           concat (map (\<lambda>p. case title p of None \<Rightarrow> [] | Some t \<Rightarrow> [t]) pages))
                 rs)"

section \<open>The loop on the WDQ result: the queries it starts\<close>

lemma wdqRow_batch:
  assumes "rowFields itemProp = Inr (itemId, categoryName)" "0 < i" "i mod 50 = 0"
    "int (length (categoryNames st)) = i"
  shows "wdqRow i itemProp st =
     Inr (st\<lparr>byId := setGroupCategory (byId st) (Itoa itemId) categoryName,
         categoryNames := categoryNames st @ [CATEGORY_NAMESPACE @ categoryName], cursor := i,
         commonsQueries := commonsQueries st @
            [take 50 (drop (nat (i - 50)) (categoryNames st @ [CATEGORY_NAMESPACE @ categoryName]))]\<rparr>)"
proof -
  have "50 \<le> i" using assms(2,3) by presburger
  then have "slice (categoryNames st @ [CATEGORY_NAMESPACE @ categoryName]) (i - 50) i
    = Inr (take 50 (drop (nat (i - 50)) (categoryNames st @ [CATEGORY_NAMESPACE @ categoryName])))"
    using assms(4) unfolding slice_def by auto
  then show ?thesis
    using assms(1,2,3) by (simp add: wdqRow_def Let_def)
qed

lemma wdqRow_plain:
  assumes "rowFields itemProp = Inr (itemId, categoryName)" "\<not> (0 < i \<and> i mod 50 = 0)"
  shows "wdqRow i itemProp st =
     Inr (st\<lparr>byId := setGroupCategory (byId st) (Itoa itemId) categoryName,
         categoryNames := categoryNames st @ [CATEGORY_NAMESPACE @ categoryName]\<rparr>)"
  using assms by (auto simp add: wdqRow_def Let_def)

lemma winvI:
  assumes "categoryNames st = ns" "cursor st = c" "commonsQueries st = qs"
    "int (length ns) = i" "c = 50 * int (length qs)" "concat qs = take (nat c) ns"
    "\<forall>x \<in> set qs. length x = 50" "i = 0 \<or> c < i" "i - c \<le> 50" "c \<le> i"
  shows "winv i st"
  using assms unfolding winv_def by blast

lemma winvD:
  assumes "winv i st"
  shows "int (length (categoryNames st)) = i"
    "cursor st = 50 * int (length (commonsQueries st))"
    "concat (commonsQueries st) = take (nat (cursor st)) (categoryNames st)"
    "\<forall>c \<in> set (commonsQueries st). length c = 50"
    "i = 0 \<or> cursor st < i" "i - cursor st \<le> 50" "cursor st \<le> i"
  using assms unfolding winv_def by blast+

lemma winv_batch:
  assumes inv: "winv i st" and b: "0 < i" "i mod 50 = 0"
  shows "winv (i + 1) (st\<lparr>byId := g, categoryNames := categoryNames st @ [nm], cursor := i,
         commonsQueries := commonsQueries st @ [take 50 (drop (nat (i - 50)) (categoryNames st @ [nm]))]\<rparr>)"
proof -
  note len = winvD(1) [OF inv] and cur = winvD(2) [OF inv] and cat = winvD(3) [OF inv]
    and all = winvD(4) [OF inv] and lt = winvD(5) [OF inv] and le = winvD(6) [OF inv]
  have c0: "0 \<le> cursor st" using cur by simp
  from b(2) obtain m where m: "i = 50 * m" by (auto simp: mod_eq_0_iff_dvd)
  have "cursor st < i" using lt b(1) by arith
  then have "int (length (commonsQueries st)) < m" using cur m by simp
  moreover have "m \<le> int (length (commonsQueries st)) + 1" using le cur m by simp
  ultimately have d: "cursor st = i - 50" using cur m by arith
  have n: "length (categoryNames st) = nat (cursor st) + 50" using d len c0 by arith
  have a: "take 50 (drop (nat (i - 50)) (categoryNames st @ [nm])) = drop (nat (cursor st)) (categoryNames st)"
    using n d by simp
  have l: "length (drop (nat (cursor st)) (categoryNames st)) = 50" using n by simp
  have e: "take (nat i) (categoryNames st @ [nm]) = categoryNames st" using len by auto
  have k: "i = 50 * int (length (commonsQueries st @ [drop (nat (cursor st)) (categoryNames st)]))"
    using d cur by simp
  have cc: "concat (commonsQueries st @ [drop (nat (cursor st)) (categoryNames st)])
      = take (nat i) (categoryNames st @ [nm])"
    unfolding e by (simp add: cat)
  have al: "\<forall>x \<in> set (commonsQueries st @ [drop (nat (cursor st)) (categoryNames st)]). length x = 50"
    using all l by simp
  have ln: "int (length (categoryNames st @ [nm])) = i + 1" using len by simp
  show ?thesis
    unfolding a
    by (rule winvI [OF _ _ _ ln k cc al]) simp_all
qed

lemma winv_plain:
  assumes inv: "winv i st" and b: "\<not> (0 < i \<and> i mod 50 = 0)"
  shows "winv (i + 1) (st\<lparr>byId := g, categoryNames := categoryNames st @ [nm]\<rparr>)"
proof -
  note len = winvD(1) [OF inv] and cur = winvD(2) [OF inv] and cat = winvD(3) [OF inv]
    and all = winvD(4) [OF inv] and lt = winvD(5) [OF inv] and le = winvD(6) [OF inv]
  have i0: "0 \<le> i" using len by linarith
  have c0: "0 \<le> cursor st" using cur by simp
  have "i \<noteq> cursor st + 50"
  proof
    assume eq: "i = cursor st + 50"
    then have "i mod 50 = 0" using cur by simp
    moreover have "0 < i" using eq c0 by linarith
    ultimately show False using b by simp
  qed
  then have d: "i + 1 - cursor st \<le> 50" using le by linarith
  note ci = winvD(7) [OF inv]
  then have "nat (cursor st) \<le> length (categoryNames st)" using len by linarith
  then have t: "concat (commonsQueries st) = take (nat (cursor st)) (categoryNames st @ [nm])"
    using cat by simp
  have lt': "i + 1 = 0 \<or> cursor st < i + 1" using ci by linarith
  have ln: "int (length (categoryNames st @ [nm])) = i + 1" using len by simp
  show ?thesis
    by (rule winvI [OF _ _ _ ln cur t all lt' d]) (use ci in simp_all)
qed

lemma wdqRow_winv:
  assumes inv: "winv i st" and row: "wdqRow i itemProp st = Inr st'"
  shows "winv (i + 1) st'"
proof -
  from row obtain itemId categoryName where
    f: "rowFields itemProp = Inr (itemId, categoryName)"
    by (auto simp: wdqRow_def split: sum.splits)
  have len: "int (length (categoryNames st)) = i" using inv unfolding winv_def by blast
  show ?thesis
  proof (cases "0 < i \<and> i mod 50 = 0")
    case True
    then show ?thesis
      using row winv_batch [OF inv] wdqRow_batch [OF f _ _ len] by auto
  next
    case False
    then show ?thesis
      using row winv_plain [OF inv False] wdqRow_plain [OF f False] by auto
  qed
qed

lemma wdqLoop_winv:
  "winv i st \<Longrightarrow> wdqLoop i rows st = Inr st' \<Longrightarrow> winv (i + int (length rows)) st'"
proof (induction rows arbitrary: i st)
  case Nil
  then show ?case by simp
next
  case (Cons r rows)
  from Cons.prems(2) obtain st1 where r: "wdqRow i r st = Inr st1" and l: "wdqLoop (i + 1) rows st1 = Inr st'"
    by (auto split: sum.splits)
  have "winv (i + 1) st1" using wdqRow_winv [OF Cons.prems(1) r] .
  from Cons.IH [OF this l] show ?case by (simp add: add.assoc)
qed


lemma wdqRow_names:
  "wdqRow i itemProp st = Inr st' \<Longrightarrow> categoryNames st' = categoryNames st @ [rowCategory itemProp]"
  by (auto simp: wdqRow_def rowCategory_def Let_def split: sum.splits if_splits)

lemma wdqLoop_names:
  "wdqLoop i rows st = Inr st' \<Longrightarrow> categoryNames st' = categoryNames st @ map rowCategory rows"
proof (induction rows arbitrary: i st)
  case Nil
  then show ?case by simp
next
  case (Cons r rows)
  from Cons.prems obtain st1 where r: "wdqRow i r st = Inr st1" and l: "wdqLoop (i + 1) rows st1 = Inr st'"
    by (auto split: sum.splits)
  show ?case using Cons.IH [OF l] wdqRow_names [OF r] by simp
qed

lemma wdqRow_total:
  assumes "winv i st" "rowOk itemProp"
  shows "\<exists>st'. wdqRow i itemProp st = Inr st'"
proof -
  from assms(2) obtain itemId categoryName where f: "rowFields itemProp = Inr (itemId, categoryName)"
    by (auto simp: rowOk_def split: sum.splits)
  show ?thesis
  proof (cases "0 < i \<and> i mod 50 = 0")
    case True
    then show ?thesis using wdqRow_batch [OF f _ _ winvD(1) [OF assms(1)]] by simp
  next
    case False
    then show ?thesis using wdqRow_plain [OF f False] by simp
  qed
qed

lemma wdqLoop_total:
  "winv i st \<Longrightarrow> \<forall>r \<in> set rows. rowOk r \<Longrightarrow> \<exists>st'. wdqLoop i rows st = Inr st'"
proof (induction rows arbitrary: i st)
  case Nil
  then show ?case by simp
next
  case (Cons r rows)
  from wdqRow_total [OF Cons.prems(1)] Cons.prems(2) obtain st1 where r: "wdqRow i r st = Inr st1"
    by auto
  have "winv (i + 1) st1" by (rule wdqRow_winv [OF Cons.prems(1) r])
  from Cons.IH [OF this] Cons.prems(2) obtain st' where "wdqLoop (i + 1) rows st1 = Inr st'"
    by auto
  then show ?case using r by simp
qed

lemma winv_init: "winv 0 (initState groups)"
  by (simp add: winv_def initState_def)

lemma ceil_chunks:
  assumes "c = 50 * k" "c < n" "n - c \<le> 50"
  shows "k + 1 = (n + 49) div (50::nat)"
proof -
  have "(n + 49) div 50 = (50 * k + (n - c + 49)) div 50" using assms by simp
  also have "\<dots> = k + (n - c + 49) div 50" by (simp only: div_mult_self4) 
  also have "(n - c + 49) div 50 = 1" using assms by simp
  finally show ?thesis by simp
qed

lemma dispatch_chunks:
  assumes ok: "\<forall>r \<in> set rows. rowOk r"
  shows "\<exists>st. dispatch groups rows = Inr st \<and>
     categoryNames st = map rowCategory rows \<and>
     concat (commonsQueries st) = map rowCategory rows \<and>
     (\<forall>c \<in> set (commonsQueries st). length c \<le> 50) \<and>
     (rows \<noteq> [] \<longrightarrow> [] \<notin> set (commonsQueries st)) \<and>
     length (commonsQueries st) = (if rows = [] then 1 else (length rows + 49) div 50)"
proof -
  from wdqLoop_total [OF winv_init ok] obtain st1 where
    l: "wdqLoop 0 rows (initState groups) = Inr st1" by blast
  have inv: "winv (int (length rows)) st1" using wdqLoop_winv [OF winv_init l] by simp
  note len = winvD(1) [OF inv] and cur = winvD(2) [OF inv] and cat = winvD(3) [OF inv]
    and all = winvD(4) [OF inv] and lt = winvD(5) [OF inv] and le = winvD(6) [OF inv]
    and ci = winvD(7) [OF inv]
  have names: "categoryNames st1 = map rowCategory rows"
    using wdqLoop_names [OF l] by (simp add: initState_def)
  define c where "c = nat (cursor st1)"
  have c: "cursor st1 = int c" using cur by (simp add: c_def)
  define last where "last = drop c (categoryNames st1)"
  have cl: "c \<le> length (categoryNames st1)" using ci len c by linarith
  have sl: "slice (categoryNames st1) (cursor st1) (int (length (categoryNames st1))) = Inr last"
    using cl by (simp add: slice_def c last_def)
  define st where "st = st1\<lparr>commonsQueries := commonsQueries st1 @ [last]\<rparr>"
  have d: "dispatch groups rows = Inr st"
    using l sl by (simp add: dispatch_def initState_def st_def)
  have n: "categoryNames st = map rowCategory rows" using names by (simp add: st_def)
  have cc: "concat (commonsQueries st) = map rowCategory rows"
    using cat names by (simp add: st_def last_def c_def)
  have ll: "length last \<le> 50" using le len c by (simp add: last_def)
  have al: "\<forall>x \<in> set (commonsQueries st). length x \<le> 50"
    using all ll by (auto simp: st_def)
  have ne: "rows \<noteq> [] \<longrightarrow> [] \<notin> set (commonsQueries st)"
  proof
    assume "rows \<noteq> []"
    then have "cursor st1 < int (length rows)" using lt by simp
    then have "last \<noteq> []" using len c by (simp add: last_def)
    moreover have "[] \<notin> set (commonsQueries st1)" using all by auto
    ultimately show "[] \<notin> set (commonsQueries st)" by (auto simp: st_def)
  qed
  have cnt: "length (commonsQueries st) = (if rows = [] then 1 else (length rows + 49) div 50)"
  proof (cases "rows = []")
    case True
    then show ?thesis using ci cur by (simp add: st_def)
  next
    case False
    have "c = 50 * length (commonsQueries st1)" using cur c by linarith
    moreover have "c < length rows" using False lt c by simp
    moreover have "length rows - c \<le> 50" using le c by linarith
    ultimately have "length (commonsQueries st1) + 1 = (length rows + 49) div 50"
      by (rule ceil_chunks)
    then show ?thesis using False by (simp add: st_def)
  qed
  show ?thesis using d n cc al ne cnt by blast
qed




section \<open>Grouping\<close>

lemma lookupGroup_upd:
  "lookupGroup (m(k \<mapsto> v)) k' = (if k' = k then v else lookupGroup m k')"
  by (simp add: lookupGroup_def)

lemma lookupGroup_empty: "lookupGroup Map.empty k = []"
  by (simp add: lookupGroup_def)

lemma groupLoop_groups:
  "lookupGroup (snd (groupLoop xs (ids, g))) k = lookupGroup g k @ filter (\<lambda>s. groupKey s = k) xs"
  by (induction xs arbitrary: ids g) (simp_all add: Let_def lookupGroup_upd)

lemma groupLoop_ids:
  "fst (groupLoop xs (ids, g)) = ids @ map groupKey xs"
  by (induction xs arbitrary: ids g) (simp_all add: Let_def)

lemma groupLoop_dom:
  "dom (snd (groupLoop xs (ids, g))) = dom g \<union> groupKey ` set xs"
  by (induction xs arbitrary: ids g) (auto simp add: Let_def)

lemma mset_groups:
  "distinct ks \<Longrightarrow>
   mset (concat (map (\<lambda>k. filter (\<lambda>s. f s = k) xs) ks)) = mset (filter (\<lambda>s. f s \<in> set ks) xs)"
proof (induction ks)
  case Nil
  then show ?case by simp
next
  case (Cons k ks)
  have "mset (filter (\<lambda>s. f s = k) xs) + mset (filter (\<lambda>s. f s \<in> set ks) xs)
      = mset (filter (\<lambda>s. f s = k \<or> f s \<in> set ks) xs)"
    using Cons.prems by (induction xs) auto
  then show ?case using Cons by simp
qed

text \<open>
  Claim C7. The map built by the first loop of \<open>queryWdq\<close> partitions the catalog:
  the group of a key is the list of the records with that key, in catalog order; the
  keys of the map are the keys of the records; and the groups, taken over the keys of
  the map once each in any order, hold every record of the catalog exactly once (as
  multisets: no record is duplicated or dropped).
\<close>

theorem grouping_partition:
  "(\<forall>k. lookupGroup (snd (groupLoop specimens ([], Map.empty))) k
        = filter (\<lambda>s. groupKey s = k) specimens) \<and>
   dom (snd (groupLoop specimens ([], Map.empty))) = groupKey ` set specimens \<and>
   (\<forall>ks. distinct ks \<and> set ks = dom (snd (groupLoop specimens ([], Map.empty))) \<longrightarrow>
      mset (concat (map (lookupGroup (snd (groupLoop specimens ([], Map.empty)))) ks))
        = mset specimens)"
proof (intro conjI allI impI)
  fix k
  show "lookupGroup (snd (groupLoop specimens ([], Map.empty))) k
      = filter (\<lambda>s. groupKey s = k) specimens"
    by (simp add: groupLoop_groups lookupGroup_empty)
next
  show d: "dom (snd (groupLoop specimens ([], Map.empty))) = groupKey ` set specimens"
    by (simp add: groupLoop_dom)
  fix ks
  assume a: "distinct ks \<and> set ks = dom (snd (groupLoop specimens ([], Map.empty)))"
  have g: "lookupGroup (snd (groupLoop specimens ([], Map.empty)))
      = (\<lambda>k. filter (\<lambda>s. groupKey s = k) specimens)"
    by (rule ext) (simp add: groupLoop_groups lookupGroup_empty)
  have "filter (\<lambda>s. groupKey s \<in> set ks) specimens = specimens"
    using a d by simp
  then show "mset (concat (map (lookupGroup (snd (groupLoop specimens ([], Map.empty)))) ks))
      = mset specimens"
    using a mset_groups [of ks groupKey specimens] unfolding g by simp
qed

theorem grouping_partition_witness:
  "mset (concat (map (lookupGroup (snd (groupLoop [lionQ1, lionQ2, lionQ1] ([], Map.empty))))
       [''2'', ''1''])) = mset [lionQ1, lionQ2, lionQ1] \<and>
   lookupGroup (snd (groupLoop [lionQ1, lionQ2, lionQ1] ([], Map.empty))) ''1'' = [lionQ1, lionQ1]"
proof -
  have k: "groupKey lionQ1 = ''1''" "groupKey lionQ2 = ''2''"
    by (simp_all add: groupKey_def lionQ1_def lionQ2_def mkSpecimen_def TrimPrefix_def)
  note t = grouping_partition [of "[lionQ1, lionQ2, lionQ1]"]
  have d: "distinct [''2'', ''1''] \<and>
      set [''2'', ''1''] = dom (snd (groupLoop [lionQ1, lionQ2, lionQ1] ([], Map.empty)))"
    using t k by auto
  show ?thesis using t d k by simp
qed

section \<open>Resolution of the category names\<close>

lemma lookupGroup_setGroupCategory:
  "lookupGroup (setGroupCategory g k n) k' =
     (if k' = k then map (setCategory n) (lookupGroup g k') else lookupGroup g k')"
  by (auto simp: lookupGroup_def setGroupCategory_def split: option.splits)

lemma wdqRow_byId:
  assumes "wdqRow i r st = Inr st'"
  shows "\<exists>f. rowFields r = Inr f \<and> byId st' = setGroupCategory (byId st) (Itoa (fst f)) (snd f)"
  using assms by (auto simp: wdqRow_def Let_def split: sum.splits if_splits)

lemma setCategory_twice: "setCategory n' (setCategory n s) = setCategory n' s"
  by (simp add: setCategory_def)

lemma resolve_Cons:
  assumes "rowFields r = Inr f"
  shows "resolve (r # rows) k s
     = resolve rows k (if Itoa (fst f) = k then setCategory (snd f) s else s)"
  using assms by (simp add: resolve_def setCategory_twice split: option.splits)

lemma wdqLoop_byId:
  "wdqLoop i rows st = Inr st' \<Longrightarrow>
   lookupGroup (byId st') k = map (resolve rows k) (lookupGroup (byId st) k)"
proof (induction rows arbitrary: i st)
  case Nil
  then show ?case by (simp add: resolve_def)
next
  case (Cons r rows)
  from Cons.prems obtain st1 where r: "wdqRow i r st = Inr st1" and l: "wdqLoop (i + 1) rows st1 = Inr st'"
    by (auto split: sum.splits)
  from wdqRow_byId [OF r] obtain f where f: "rowFields r = Inr f"
    and b: "byId st1 = setGroupCategory (byId st) (Itoa (fst f)) (snd f)" by blast
  show ?case
    unfolding Cons.IH [OF l] b lookupGroup_setGroupCategory
    by (simp add: resolve_Cons [OF f])
qed

lemma readCsvFile_empty_category:
  "readCsvFile records = Inr specimens \<Longrightarrow> \<forall>s \<in> set specimens. CommonsCategoryName s = []"
proof (induction records arbitrary: specimens)
  case Nil
  then show ?case by simp
next
  case (Cons r records)
  then show ?case by (auto simp: mkSpecimen_def split: if_splits sum.splits)
qed

lemma resolve_fresh:
  "CommonsCategoryName s = [] \<Longrightarrow> resolve rows k s = s\<lparr>CommonsCategoryName := resolvedName rows k\<rparr>"
  by (simp add: resolve_def resolvedName_def setCategory_def split: option.splits)

lemma resolved_distinct:
  assumes "distinct (map rowKey rows)" "r \<in> set rows" "rowFields r = Inr f"
  shows "resolved rows (Itoa (fst f)) = Some (snd f)"
  using assms
proof (induction rows)
  case Nil
  then show ?case by simp
next
  case (Cons a rows)
  show ?case
  proof (cases "r \<in> set rows")
    case True
    then show ?thesis using Cons by simp
  next
    case False
    then have a: "a = r" using Cons.prems by simp
    have "Itoa (fst f) \<notin> rowKey ` set rows"
      using Cons.prems(1,3) a by (simp add: rowKey_def)
    then have "resolved rows (Itoa (fst f)) = None"
      by (induction rows) (auto simp: rowKey_def split: sum.splits option.splits)
    then show ?thesis using a Cons.prems(3) by simp
  qed
qed

text \<open>
  Claim C5, as the code has it. For a catalog that \<open>readCsvFile\<close> accepts and a WDQ
  answer whose rows are read without a panic, the loop succeeds and, for every key,
  the records of the group are the catalog's records with that key, each carrying
  the category name resolved for the key: the name (with the namespace prefix) of
  the last row of the answer with that item number, whatever the position of the row
  in the answer, and the empty name when no row has it. When no item number occurs
  in two rows, every row's name is the one its group carries.
\<close>

theorem resolution_by_identifier:
  assumes csv: "readCsvFile records = Inr specimens"
    and ok: "\<forall>r \<in> set rows. rowOk r"
  shows "\<exists>st. dispatch (snd (groupLoop specimens ([], Map.empty))) rows = Inr st \<and>
     (\<forall>k. lookupGroup (byId st) k =
        map (\<lambda>s. s\<lparr>CommonsCategoryName := resolvedName rows k\<rparr>)
          (filter (\<lambda>s. groupKey s = k) specimens)) \<and>
     (\<forall>k. k \<notin> rowKey ` set rows \<longrightarrow> resolvedName rows k = []) \<and>
     (distinct (map rowKey rows) \<longrightarrow>
        (\<forall>r \<in> set rows. \<forall>f. rowFields r = Inr f \<longrightarrow>
           resolvedName rows (Itoa (fst f)) = CATEGORY_NAMESPACE @ snd f))"
proof -
  define g where "g = snd (groupLoop specimens ([], Map.empty))"
  from dispatch_chunks [OF ok, of g] obtain st where d: "dispatch g rows = Inr st" by blast
  then obtain st1 where l: "wdqLoop 0 rows (initState g) = Inr st1" and b: "byId st = byId st1"
    by (auto simp: dispatch_def initState_def split: sum.splits)
  have e: "\<forall>s \<in> set specimens. CommonsCategoryName s = []"
    by (rule readCsvFile_empty_category [OF csv])
  have 1: "\<forall>k. lookupGroup (byId st) k =
        map (\<lambda>s. s\<lparr>CommonsCategoryName := resolvedName rows k\<rparr>)
          (filter (\<lambda>s. groupKey s = k) specimens)"
  proof
    fix k
    have "lookupGroup (byId st) k = map (resolve rows k) (filter (\<lambda>s. groupKey s = k) specimens)"
      unfolding b wdqLoop_byId [OF l]
      by (simp add: initState_def g_def groupLoop_groups lookupGroup_empty)
    also have "\<dots> = map (\<lambda>s. s\<lparr>CommonsCategoryName := resolvedName rows k\<rparr>)
          (filter (\<lambda>s. groupKey s = k) specimens)"
      using e by (intro map_cong refl resolve_fresh) simp
    finally show "lookupGroup (byId st) k =
        map (\<lambda>s. s\<lparr>CommonsCategoryName := resolvedName rows k\<rparr>)
          (filter (\<lambda>s. groupKey s = k) specimens)" .
  qed
  have 2: "\<forall>k. k \<notin> rowKey ` set rows \<longrightarrow> resolvedName rows k = []"
  proof (intro allI impI)
    fix k
    assume "k \<notin> rowKey ` set rows"
    then have "resolved rows k = None"
      by (induction rows) (auto simp: rowKey_def split: sum.splits option.splits)
    then show "resolvedName rows k = []" by (simp add: resolvedName_def)
  qed
  have 3: "distinct (map rowKey rows) \<longrightarrow>
        (\<forall>r \<in> set rows. \<forall>f. rowFields r = Inr f \<longrightarrow>
           resolvedName rows (Itoa (fst f)) = CATEGORY_NAMESPACE @ snd f)"
    by (auto simp: resolvedName_def resolved_distinct)
  show ?thesis using d 1 2 3 unfolding g_def by blast
qed

lemma catalog_read: "readCsvFile catalog = Inr [lionQ1, lionQ2]"
  by (simp add: catalog_def lionQ1_def lionQ2_def)

theorem resolution_by_identifier_witness:
  "readCsvFile catalog = Inr [lionQ1, lionQ2] \<and>
   list_all rowOk [[JNumber 1, JOther, JString ''Panthera leo'']] \<and>
   distinct (map rowKey [[JNumber 1, JOther, JString ''Panthera leo'']]) \<and>
   (\<exists>st. dispatch (snd (groupLoop [lionQ1, lionQ2] ([], Map.empty)))
            [[JNumber 1, JOther, JString ''Panthera leo'']] = Inr st \<and>
      lookupGroup (byId st) ''1'' = [lionQ1\<lparr>CommonsCategoryName := ''Category:Panthera leo''\<rparr>] \<and>
      lookupGroup (byId st) ''2'' = [lionQ2\<lparr>CommonsCategoryName := []\<rparr>])"
proof -
  have ok: "\<forall>r \<in> set [[JNumber 1, JOther, JString ''Panthera leo'']]. rowOk r"
    by (simp add: rowOk_def rowFields_def index_def)
  have f: "rowFields [JNumber 1, JOther, JString ''Panthera leo''] = Inr (1, ''Panthera leo'')"
    by (simp add: rowFields_def index_def)
  have k: "groupKey lionQ1 = ''1''" "groupKey lionQ2 = ''2''"
    by (simp_all add: groupKey_def lionQ1_def lionQ2_def mkSpecimen_def TrimPrefix_def)
  have i: "Itoa 1 = ''1''" by (simp add: Itoa_def digit_def)
  have rk: "rowKey [JNumber 1, JOther, JString ''Panthera leo''] = ''1''"
    by (simp add: rowKey_def f i)
  from resolution_by_identifier [OF catalog_read ok] obtain st where
    d: "dispatch (snd (groupLoop [lionQ1, lionQ2] ([], Map.empty)))
            [[JNumber 1, JOther, JString ''Panthera leo'']] = Inr st"
    and g: "\<forall>k. lookupGroup (byId st) k =
        map (\<lambda>s. s\<lparr>CommonsCategoryName := resolvedName [[JNumber 1, JOther, JString ''Panthera leo'']] k\<rparr>)
          (filter (\<lambda>s. groupKey s = k) [lionQ1, lionQ2])"
    and n: "\<forall>k. k \<notin> rowKey ` set [[JNumber 1, JOther, JString ''Panthera leo'']] \<longrightarrow>
        resolvedName [[JNumber 1, JOther, JString ''Panthera leo'']] k = []"
    and u: "distinct (map rowKey [[JNumber 1, JOther, JString ''Panthera leo'']]) \<longrightarrow>
        (\<forall>r \<in> set [[JNumber 1, JOther, JString ''Panthera leo'']]. \<forall>f. rowFields r = Inr f \<longrightarrow>
           resolvedName [[JNumber 1, JOther, JString ''Panthera leo'']] (Itoa (fst f))
             = CATEGORY_NAMESPACE @ snd f)"
    by blast
  have r1: "resolvedName [[JNumber 1, JOther, JString ''Panthera leo'']] ''1'' = ''Category:Panthera leo''"
    using u f i by (simp add: CATEGORY_NAMESPACE_def)
  have r2: "resolvedName [[JNumber 1, JOther, JString ''Panthera leo'']] ''2'' = []"
    using n rk by simp
  have "lookupGroup (byId st) ''1'' = [lionQ1\<lparr>CommonsCategoryName := ''Category:Panthera leo''\<rparr>]"
    using g k r1 by simp
  moreover have "lookupGroup (byId st) ''2'' = [lionQ2\<lparr>CommonsCategoryName := []\<rparr>]"
    using g k r2 by simp
  ultimately show ?thesis using d catalog_read ok by (simp add: list_all_iff)
qed

text \<open>
  Claim C5 as stated fails when the answer has two rows for one item: the answer
  holds the pair (1, Panthera leo), and the record of Q1 carries the name of the
  later pair (1, Lions) only.
\<close>

theorem resolution_last_pair_counterexample:
  "categoriesOf ''1''
     (dispatch (snd (groupLoop [lionQ1, lionQ2] ([], Map.empty)))
        [[JNumber 1, JOther, JString ''Panthera leo''], [JNumber 1, JOther, JString ''Lions'']])
   = [''Category:Lions'']"
  by (simp add: categoriesOf_def dispatch_def wdqRow_def rowFields_def index_def slice_def
      CATEGORY_NAMESPACE_def Let_def setGroupCategory_def setCategory_def lookupGroup_def
      groupKey_def lionQ1_def lionQ2_def mkSpecimen_def TrimPrefix_def Itoa_def digit_def)

section \<open>The merge of the Commons information\<close>

lemma dispatch_foo:
  "dispatch g [fooItem] =
     Inr \<lparr>byId = setGroupCategory g ''1'' ''Foo'', categoryNames = [''Category:Foo''], cursor = 0,
          commonsQueries = [[''Category:Foo'']]\<rparr>"
  by (simp add: dispatch_def wdqRow_def rowFields_def index_def slice_def fooItem_def
      CATEGORY_NAMESPACE_def Let_def Itoa_def digit_def)

lemma lion_keys: "groupKey lionQ1 = ''1''" "groupKey lionQ2 = ''2''"
  by (simp_all add: groupKey_def lionQ1_def lionQ2_def mkSpecimen_def TrimPrefix_def)

lemma lion_names: "CommonsCategoryName lionQ1 = []" "CommonsCategoryName lionQ2 = []"
  by (simp_all add: lionQ1_def lionQ2_def mkSpecimen_def)

lemma groups_lions:
  "lookupGroup (snd (groupLoop [lionQ1, lionQ2] ([], Map.empty))) k =
     (if k = ''1'' then [lionQ1] else if k = ''2'' then [lionQ2] else [])"
  unfolding groupLoop_groups by (auto simp add: lookupGroup_empty lion_keys)

lemma queryWdq_steps:
  assumes "wdqGet env (''ITEMS['' @ Join (fst (groupLoop specimens ([], Map.empty))) '','' @ '']'') ''373''
      = Inr (200, \<lparr>Status_Error = ''OK'', Props = [''373'' \<mapsto> rows]\<rparr>)"
    and "dispatch (snd (groupLoop specimens ([], Map.empty))) rows = Inr st"
    and "runQueries env (commonsQueries st) Map.empty = Inr categoryMembers"
  shows "queryWdq env specimens =
     Inr (merger categoryMembers (byId st)
       (rangeKeys env (fst (groupLoop specimens ([], Map.empty)))))"
  using assms
  by (cases "groupLoop specimens ([], Map.empty)")
    (simp add: queryWdq_def COMMONS_CAT_PROPERTY_def lookupRows_def)

lemma sint64_add:
  fixes a b :: goint
  assumes "0 \<le>s a" "0 \<le>s b" "sint a + sint b < 2 ^ 63"
  shows "sint (a + b) = sint a + sint b"
proof -
  have "0 \<le> sint a" "0 \<le> sint b" using assms(1,2) by (simp_all add: word_sle_eq)
  moreover have "- (2 ^ 63) \<le> (0::int)" by simp
  ultimately have "- (2 ^ 63) \<le> sint a + sint b" by linarith
  then have "signed_take_bit 63 (sint a + sint b) = sint a + sint b"
    using assms(3) by (simp add: signed_take_bit_int_eq_self)
  then show ?thesis by (simp add: sint_word_ariths)
qed

lemma mergeSpecimen_fields:
  "FileCount (mergeSpecimen m s) = files (lookupInfo m (CommonsCategoryName s))"
  "SubCats (mergeSpecimen m s) = subCats (lookupInfo m (CommonsCategoryName s))"
  "SubCatsFileCounts (mergeSpecimen m s) = subCatsFiles (lookupInfo m (CommonsCategoryName s))"
  "TotalFiles (mergeSpecimen m s) = FileCount (mergeSpecimen m s) + SubCatsFileCounts (mergeSpecimen m s)"
  "CommonsCategoryName (mergeSpecimen m s) = CommonsCategoryName s"
  by (simp_all add: mergeSpecimen_def Let_def)

lemma lookupInfo_nonNegative:
  "nonNegative m \<Longrightarrow> 0 \<le>s files (lookupInfo m k) \<and> 0 \<le>s subCatsFiles (lookupInfo m k)"
  by (auto simp: nonNegative_def lookupInfo_def zeroInfo_def ran_def split: option.splits)

lemma merger_elem:
  "r \<in> set (merger m g ks) \<Longrightarrow> \<exists>k \<in> set ks. \<exists>s \<in> set (lookupGroup g k). r = mergeSpecimen m s"
  by (auto simp: merger_def)

lemma merger_totals:
  "\<forall>r \<in> set (merger categoryMembers groups ks).
     TotalFiles r = FileCount r + SubCatsFileCounts r \<and>
     (nonNegative categoryMembers \<longrightarrow> 0 \<le>s FileCount r \<and> 0 \<le>s SubCatsFileCounts r) \<and>
     (0 \<le>s FileCount r \<and> 0 \<le>s SubCatsFileCounts r \<and>
        sint (FileCount r) + sint (SubCatsFileCounts r) < 2 ^ 63 \<longrightarrow>
      sint (TotalFiles r) = sint (FileCount r) + sint (SubCatsFileCounts r))"
proof
  fix r
  assume "r \<in> set (merger categoryMembers groups ks)"
  then obtain s where r: "r = mergeSpecimen categoryMembers s" using merger_elem by blast
  have t: "TotalFiles r = FileCount r + SubCatsFileCounts r"
    unfolding r by (rule mergeSpecimen_fields(4))
  have n: "nonNegative categoryMembers \<longrightarrow> 0 \<le>s FileCount r \<and> 0 \<le>s SubCatsFileCounts r"
    unfolding r mergeSpecimen_fields(1,3) using lookupInfo_nonNegative by blast
  have i: "0 \<le>s FileCount r \<and> 0 \<le>s SubCatsFileCounts r \<and>
        sint (FileCount r) + sint (SubCatsFileCounts r) < 2 ^ 63 \<longrightarrow>
      sint (TotalFiles r) = sint (FileCount r) + sint (SubCatsFileCounts r)"
    unfolding t using sint64_add by blast
  show "TotalFiles r = FileCount r + SubCatsFileCounts r \<and>
     (nonNegative categoryMembers \<longrightarrow> 0 \<le>s FileCount r \<and> 0 \<le>s SubCatsFileCounts r) \<and>
     (0 \<le>s FileCount r \<and> 0 \<le>s SubCatsFileCounts r \<and>
        sint (FileCount r) + sint (SubCatsFileCounts r) < 2 ^ 63 \<longrightarrow>
      sint (TotalFiles r) = sint (FileCount r) + sint (SubCatsFileCounts r))"
    using t n i by blast
qed

lemma merger_lions:
  "merger fooIndex [''1'' \<mapsto> [lionFoo], ''2'' \<mapsto> [lionQ2]] [''2'', ''1'']
     = [lionQ2\<lparr>FileCount := 0, SubCats := 0, SubCatsFileCounts := 0, TotalFiles := 0\<rparr>,
        lionFoo\<lparr>FileCount := 3, SubCats := 1, SubCatsFileCounts := 2, TotalFiles := 5\<rparr>]"
  by (simp add: merger_def lookupGroup_def mergeSpecimen_def lookupInfo_def zeroInfo_def fooIndex_def
      lionFoo_def lion_names Let_def)

lemma pageStep_other:
  "pageStep env m p = Inr m' \<Longrightarrow> title p \<noteq> Some k \<Longrightarrow> m' k = m k"
  by (auto simp: pageStep_def Let_def split: option.splits sum.splits if_splits)

lemma pagesLoop_other:
  "pagesLoop env ps m = Inr m' \<Longrightarrow> \<forall>p \<in> set ps. title p \<noteq> Some k \<Longrightarrow> m' k = m k"
proof (induction ps arbitrary: m)
  case Nil
  then show ?case by simp
next
  case (Cons p ps)
  from Cons.prems(1) obtain m1 where s: "pageStep env m p = Inr m1" and l: "pagesLoop env ps m1 = Inr m'"
    by (auto split: sum.splits)
  show ?case using Cons.IH [OF l] pageStep_other [OF s] Cons.prems(2) by simp
qed

lemma responsesLoop_other:
  "responsesLoop env rs m = Inr m' \<Longrightarrow>
   \<forall>resp \<in> set rs. \<forall>pages. resp = Some pages \<longrightarrow> (\<forall>p \<in> set pages. title p \<noteq> Some k) \<Longrightarrow>
   m' k = m k"
proof (induction rs arbitrary: m)
  case Nil
  then show ?case by simp
next
  case (Cons r rs)
  from Cons.prems(1) obtain pages m1 where r: "r = Some pages"
    and s: "pagesLoop env pages m = Inr m1" and l: "responsesLoop env rs m1 = Inr m'"
    by (auto split: sum.splits option.splits)
  have "m1 k = m k" using pagesLoop_other [OF s] Cons.prems(2) r by simp
  moreover have "m' k = m1 k" using Cons.IH [OF l] Cons.prems(2) by simp
  ultimately show ?case by simp
qed

lemma runQueries_empty_title:
  "runQueries env qs m = Inr m' \<Longrightarrow> noEmptyTitle env \<Longrightarrow> m' [] = m []"
proof (induction qs arbitrary: m)
  case Nil
  then show ?case by simp
next
  case (Cons q qs)
  from Cons.prems(1) obtain m1 where s: "queryCommons env m q = Inr m1" and l: "runQueries env qs m1 = Inr m'"
    by (auto split: sum.splits)
  have "m1 [] = m []"
    using s Cons.prems(2) unfolding queryCommons_def noEmptyTitle_def
    by (intro responsesLoop_other) auto
  then show ?case using Cons.IH [OF l Cons.prems(2)] by simp
qed

lemma mergeSpecimen_missing:
  "m (CommonsCategoryName s) = None \<Longrightarrow>
   mergeSpecimen m s = s\<lparr>FileCount := 0, SubCats := 0, SubCatsFileCounts := 0, TotalFiles := 0\<rparr>"
  by (simp add: mergeSpecimen_def lookupInfo_def zeroInfo_def Let_def)

lemma queryWdq_Inr:
  assumes "queryWdq env specimens = Inr out"
  shows "\<exists>rows (st :: wdqState) m.
     answerRows env specimens rows \<and>
     dispatch (snd (groupLoop specimens ([], Map.empty))) rows = Inr st \<and>
     runQueries env (commonsQueries st) Map.empty = Inr m \<and>
     out = merger m (byId st) (rangeKeys env (fst (groupLoop specimens ([], Map.empty))))"
proof (cases "groupLoop specimens ([], Map.empty)")
  case (Pair wikidataIds g)
  with assms obtain status result where
    w: "wdqGet env (''ITEMS['' @ Join wikidataIds '','' @ '']'') COMMONS_CAT_PROPERTY = Inr (status, result)"
    by (auto simp: queryWdq_def split: sum.splits)
  with assms Pair have s2: "status = 200" and ok: "Status_Error result = ''OK''"
    by (auto simp: queryWdq_def split: if_splits)
  from w s2 ok Pair have r: "answerRows env specimens (lookupRows (Props result) COMMONS_CAT_PROPERTY)"
    unfolding answerRows_def by auto
  from w assms Pair obtain st where
    d: "dispatch g (lookupRows (Props result) COMMONS_CAT_PROPERTY) = Inr st"
    and o: "(case runQueries env (commonsQueries st) Map.empty of
               Inl e \<Rightarrow> Inl e
             | Inr categoryMembers \<Rightarrow>
                 Inr (merger categoryMembers (byId st) (rangeKeys env wikidataIds))) = Inr out"
    by (auto simp: queryWdq_def split: sum.splits if_splits)
  from o obtain m where "runQueries env (commonsQueries st) Map.empty = Inr m"
    "out = merger m (byId st) (rangeKeys env wikidataIds)"
    by (auto split: sum.splits)
  then show ?thesis using r d Pair by auto
qed

lemma sample_queryWdq:
  assumes "runQueries (sampleServices infos subcats) [[''Category:Foo'']] Map.empty = Inr m"
  shows "queryWdq (sampleServices infos subcats) [lionQ1, lionQ2] =
    Inr (mergeSpecimen m lionFoo # [mergeSpecimen m lionQ2])"
proof -
  define g where "g = snd (groupLoop [lionQ1, lionQ2] ([], Map.empty))"
  have g: "lookupGroup g ''1'' = [lionQ1]" "lookupGroup g ''2'' = [lionQ2]"
    unfolding g_def groups_lions by simp_all
  have w: "wdqGet (sampleServices infos subcats)
      (''ITEMS['' @ Join (fst (groupLoop [lionQ1, lionQ2] ([], Map.empty))) '','' @ '']'') ''373''
      = Inr (200, \<lparr>Status_Error = ''OK'', Props = [''373'' \<mapsto> [fooItem]]\<rparr>)"
    by (simp add: sampleServices_def)
  have r: "rangeKeys (sampleServices infos subcats) (fst (groupLoop [lionQ1, lionQ2] ([], Map.empty)))
      = [''1'', ''2'']"
    unfolding rangeKeys_def groupLoop_ids by (simp add: sampleServices_def lion_keys)
  have q: "queryWdq (sampleServices infos subcats) [lionQ1, lionQ2] =
      Inr (merger m (setGroupCategory g ''1'' ''Foo'') [''1'', ''2''])"
  proof -
    have c: "runQueries (sampleServices infos subcats)
        (commonsQueries \<lparr>byId = setGroupCategory g ''1'' ''Foo'', categoryNames = [''Category:Foo''],
           cursor = 0, commonsQueries = [[''Category:Foo'']]\<rparr>) Map.empty = Inr m"
      using assms by simp
    show ?thesis
      using queryWdq_steps [OF w dispatch_foo c [unfolded g_def]]
      by (simp only: r g_def wdqState.select_convs)
  qed
  show ?thesis
    unfolding q
    by (simp add: merger_def lookupGroup_setGroupCategory g lionFoo_def setCategory_def
        CATEGORY_NAMESPACE_def)
qed

lemma emptyTitle_index:
  "runQueries emptyTitle [[''Category:Foo'']] Map.empty
     = Inr [[] \<mapsto> \<lparr>files = 3, subCats = 0, subCatsFiles = 0\<rparr>]"
  by (simp add: emptyTitle_def sampleServices_def queryCommons_def pageStep_def pageInfo_def
      lookupInfo_def zeroInfo_def)

text \<open>
  Claim C4 as stated fails for an empty category name that is a key of the index:
  the service reports a page with the empty title and 3 files; the specimen of Q2,
  which WDQ did not resolve, gets the file count 3.
\<close>

theorem empty_name_counterexample:
  "ownFileCounts (queryWdq emptyTitle [lionQ1, lionQ2]) = [0, 3]"
  using sample_queryWdq [OF emptyTitle_index [unfolded emptyTitle_def]]
  by (simp add: emptyTitle_def ownFileCounts_def mergeSpecimen_def lookupInfo_def zeroInfo_def
      lionFoo_def lion_names Let_def)

lemma fooServices_index:
  "runQueries (sampleServices [Some [\<lparr>title = Some ''Category:Foo'', ci_files = Some 3, ci_subcats = None\<rparr>]] [])
     [[''Category:Foo'']] Map.empty
     = Inr [''Category:Foo'' \<mapsto> \<lparr>files = 3, subCats = 0, subCatsFiles = 0\<rparr>]"
  by (simp add: sampleServices_def queryCommons_def pageStep_def pageInfo_def
      lookupInfo_def zeroInfo_def)

lemma negativeCount_index:
  "runQueries negativeCount [[''Category:Foo'']] Map.empty
     = Inr [''Category:Foo'' \<mapsto> \<lparr>files = - 1, subCats = 0, subCatsFiles = 0\<rparr>]"
  by (simp add: negativeCount_def sampleServices_def queryCommons_def pageStep_def pageInfo_def
      lookupInfo_def zeroInfo_def)

section \<open>The statistics of a category\<close>

text \<open>
  What \<open>queryCommons\<close> stores for a page: with a positive subcategory count, the sum
  that \<open>queryCommonsSubcats\<close> returns; otherwise the \<open>subCatsFiles\<close> that the index
  held for the title before, which is 0 for a title with no entry yet.
\<close>

lemma pageStep_positive:
  assumes "pageStep env m p = Inr m'" "title p = Some t" "0 <s subCats (pageInfo m t p)"
  shows "\<exists>n. queryCommonsSubcats env t = Inr n \<and> m' t = Some ((pageInfo m t p)\<lparr>subCatsFiles := n\<rparr>)"
  using assms by (auto simp: pageStep_def Let_def split: sum.splits)

lemma pageStep_not_positive:
  assumes "pageStep env m p = Inr m'" "title p = Some t" "\<not> 0 <s subCats (pageInfo m t p)"
  shows "m' t = Some (pageInfo m t p)"
  using assms by (auto simp: pageStep_def Let_def split: sum.splits)

lemma pageInfo_subCatsFiles:
  "subCatsFiles (pageInfo m t p) = (case m t of None \<Rightarrow> 0 | Some c \<Rightarrow> subCatsFiles c)"
  by (simp add: pageInfo_def lookupInfo_def zeroInfo_def split: option.splits)

text \<open>
  Claim C6 on the code. The claim holds for the first answer about a category and
  fails for a later one: the category Foo is reported with one subcategory (2
  files), then again without category information; \<open>files\<close> and \<open>subCats\<close> are reset
  to 0 by their \<open>else\<close> branches, \<open>subCatsFiles\<close> has none and stays 2 although
  \<open>subCats\<close> is 0.
\<close>

theorem stale_subCatsFiles:
  "storedInfo ''Category:Foo'' (queryCommons repeatedTitle Map.empty [''Category:Foo''])
     = Some \<lparr>files = 0, subCats = 0, subCatsFiles = 2\<rparr>"
  by (simp add: storedInfo_def repeatedTitle_def sampleServices_def queryCommons_def pageStep_def
      pageInfo_def lookupInfo_def zeroInfo_def queryCommonsSubcats_def word_sless_alt Let_def)

section \<open>Sorting by original name\<close>

lemma nth_pair:
  "(xs @ y # x # zs) ! length xs = y" "(xs @ y # x # zs) ! Suc (length xs) = x"
  by (simp_all add: nth_append)

lemma Swap_pair: "Swap (xs @ y # x # zs) (Suc (length xs)) (length xs) = xs @ x # y # zs"
  by (simp add: Swap_def nth_append list_update_append)

lemma Less_pair:
  "Less (xs @ y # x # zs) (Suc (length xs)) (length xs) \<longleftrightarrow> OriginalName x < OriginalName y"
  by (simp add: Less_def nth_pair)

lemma sink_sorted:
  assumes "sorted (map OriginalName xs)"
  shows "\<exists>ys. sink (xs @ x # zs) (length xs) = ys @ zs \<and> mset ys = mset xs + {#x#} \<and>
     sorted (map OriginalName ys)"
  using assms
proof (induction xs arbitrary: zs rule: rev_induct)
  case Nil
  then show ?case by simp
next
  case (snoc y xs)
  have s: "sorted (map OriginalName xs)" and le: "\<forall>u \<in> set xs. OriginalName u \<le> OriginalName y"
    using snoc.prems by (simp_all add: sorted_append)
  show ?case
  proof (cases "OriginalName x < OriginalName y")
    case True
    from snoc.IH [OF s, of "y # zs"] obtain ys where
      k: "sink (xs @ x # y # zs) (length xs) = ys @ y # zs" and m: "mset ys = mset xs + {#x#}"
      and o: "sorted (map OriginalName ys)" by blast
    have "set_mset (mset ys) = set_mset (mset xs + {#x#})" by (simp only: m)
    then have "set ys = set xs \<union> {x}" by simp
    then have "\<forall>u \<in> set ys. OriginalName u \<le> OriginalName y" using le True by auto
    then have "sorted (map OriginalName (ys @ [y]))" using o by (simp add: sorted_append)
    moreover have "sink ((xs @ [y]) @ x # zs) (length (xs @ [y])) = (ys @ [y]) @ zs"
      using True k by (simp add: Less_pair Swap_pair)
    moreover have "mset (ys @ [y]) = mset (xs @ [y]) + {#x#}" using m by simp
    ultimately show ?thesis by blast
  next
    case False
    then have "sorted (map OriginalName ((xs @ [y]) @ [x]))"
      using snoc.prems by (auto simp: sorted_append)
    moreover have "sink ((xs @ [y]) @ x # zs) (length (xs @ [y])) = ((xs @ [y]) @ [x]) @ zs"
      using False by (simp add: Less_pair)
    ultimately show ?thesis by (intro exI [of _ "(xs @ [y]) @ [x]"]) simp
  qed
qed

lemma insertionSort_sorted:
  "i + n = length a \<Longrightarrow> sorted (map OriginalName (take i a)) \<Longrightarrow>
   sorted (map OriginalName (insertionSort n i a)) \<and> mset (insertionSort n i a) = mset a"
proof (induction n arbitrary: i a)
  case 0
  then show ?case by simp
next
  case (Suc n)
  have i: "i < length a" using Suc.prems(1) by simp
  then have a: "take i a @ a ! i # drop (Suc i) a = a" by (simp add: id_take_nth_drop [symmetric])
  have l: "length (take i a) = i" using i by simp
  from sink_sorted [OF Suc.prems(2), of "a ! i" "drop (Suc i) a"] obtain ys where
    k: "sink a i = ys @ drop (Suc i) a" and m: "mset ys = mset (take i a) + {#a ! i#}"
    and o: "sorted (map OriginalName ys)"
    unfolding a l by blast
  have "size (mset ys) = size (mset (take i a) + {#a ! i#})" by (simp only: m)
  then have ly: "length ys = Suc i" using i by simp
  have "mset (sink a i) = mset (take i a @ a ! i # drop (Suc i) a)"
    by (simp add: k m)
  then have ms: "mset (sink a i) = mset a" by (simp only: a)
  have "size (mset (sink a i)) = size (mset a)" by (simp only: ms)
  then have ln: "Suc i + n = length (sink a i)" using Suc.prems(1) by simp
  have t: "take (Suc i) (sink a i) = ys" using k ly by simp
  from Suc.IH [OF ln] o t ms show ?case by simp
qed

lemma sorted_by_original_name:
  "sorted (map OriginalName (sortSort specimens)) \<and> mset (sortSort specimens) = mset specimens"
proof (cases specimens)
  case Nil
  then show ?thesis by (simp add: sortSort_def Len_def)
next
  case (Cons s ss)
  then have "1 + (Len specimens - 1) = length specimens" by (simp add: Len_def)
  moreover have "sorted (map OriginalName (take 1 specimens))" using Cons by simp
  ultimately show ?thesis unfolding sortSort_def by (rule insertionSort_sorted)
qed

section \<open>Rendering and publishing\<close>

lemma updateWikiPage_edit:
  assumes "readTemplate env = Inr templateBytes" "parseTemplate env templateBytes = Inr tableTemplate"
  shows "updateWikiPage env specimens =
     (case wikiEdit env (editWith env (fst (tableTemplate (sortSort specimens)))) of
        Some e \<Rightarrow> Inl e
      | None \<Rightarrow> Inr (editWith env (fst (tableTemplate (sortSort specimens)))))"
  using assms by (simp add: updateWikiPage_def editWith_def Let_def split: option.splits)

text \<open>
  Claim C8. \<open>updateWikiPage\<close> sorts the whole buffer of merged records before it
  runs the template: the sorted buffer holds the same records, its original names
  ascend in the byte-wise lexicographic order of strings, so that each record's
  original name is at most the next one's; and the text of the edit is what the
  template writes for the sorted buffer.
\<close>

theorem rendered_in_name_order:
  "sorted (map OriginalName (sortSort specimens)) \<and>
   mset (sortSort specimens) = mset specimens \<and>
   (\<forall>i. Suc i < length (sortSort specimens) \<longrightarrow>
      OriginalName (sortSort specimens ! i) \<le> OriginalName (sortSort specimens ! Suc i)) \<and>
   (readTemplate env = Inr templateBytes \<and> parseTemplate env templateBytes = Inr tableTemplate \<and>
    wikiEdit env (editWith env (fst (tableTemplate (sortSort specimens)))) = None \<longrightarrow>
      updateWikiPage env specimens = Inr (editWith env (fst (tableTemplate (sortSort specimens)))))"
proof -
  have s: "sorted (map OriginalName (sortSort specimens))"
    and m: "mset (sortSort specimens) = mset specimens"
    using sorted_by_original_name by simp_all
  have "\<forall>i. Suc i < length (map OriginalName (sortSort specimens)) \<longrightarrow>
      map OriginalName (sortSort specimens) ! i \<le> map OriginalName (sortSort specimens) ! Suc i"
    using s by (simp only: sorted_iff_nth_Suc) 
  then have n: "\<forall>i. Suc i < length (sortSort specimens) \<longrightarrow>
      OriginalName (sortSort specimens ! i) \<le> OriginalName (sortSort specimens ! Suc i)"
    by simp
  show ?thesis using s m n by (simp add: updateWikiPage_edit)
qed

lemma sort_lions: "sortSort [lionQ1, lionQ2] = [lionQ2, lionQ1]"
  by (simp add: sortSort_def Len_def Less_def Swap_def lionQ1_def lionQ2_def mkSpecimen_def
      numeral_2_eq_2 less_char_def)

theorem rendered_in_name_order_witness:
  "sortSort [lionQ1, lionQ2] = [lionQ2, lionQ1] \<and>
   OriginalName lionQ2 \<le> OriginalName lionQ1 \<and>
   updateWikiPage failingTemplate [lionQ1, lionQ2] = Inr (editWith failingTemplate ''{| class=wikitable'')"
proof -
  have r: "readTemplate failingTemplate = Inr []"
    and p: "parseTemplate failingTemplate [] = Inr (\<lambda>specimens. (''{| class=wikitable'', Some TemplateExecError))"
    and w: "wikiEdit failingTemplate ps = None" for ps
    by (simp_all add: failingTemplate_def sampleServices_def)
  note t = rendered_in_name_order [of "[lionQ1, lionQ2]" failingTemplate "[]"
      "\<lambda>specimens. (''{| class=wikitable'', Some TemplateExecError)"]
  have "OriginalName ([lionQ2, lionQ1] ! 0) \<le> OriginalName ([lionQ2, lionQ1] ! Suc 0)"
    using t unfolding sort_lions by simp
  then show ?thesis using t r p w by (simp add: sort_lions)
qed

text \<open>
  Claim C10. The result of \<open>Execute\<close> is dropped: when the template stops with an
  error after writing \<open>partial\<close> to the buffer, \<open>updateWikiPage\<close> goes on as without
  the error and submits the edit with \<open>partial\<close> as its text; the run stops only if
  the edit itself fails.
\<close>

theorem template_error_discarded:
  assumes "readTemplate env = Inr templateBytes"
    and "parseTemplate env templateBytes = Inr tableTemplate"
    and "tableTemplate (sortSort specimens) = (partial, Some err)"
  shows "updateWikiPage env specimens =
     (case wikiEdit env (editWith env partial) of
        Some e \<Rightarrow> Inl e
      | None \<Rightarrow> Inr (editWith env partial))"
  using updateWikiPage_edit [OF assms(1,2), of specimens] assms(3) by (simp split: option.splits)

theorem template_error_discarded_witness:
  "readTemplate failingTemplate = Inr [] \<and>
   wikiEdit failingTemplate (editWith failingTemplate ''{| class=wikitable'') = None \<and>
   updateWikiPage failingTemplate [lionQ1, lionQ2] = Inr (editWith failingTemplate ''{| class=wikitable'') \<and>
   p_text (editWith failingTemplate ''{| class=wikitable'') = ''{| class=wikitable''"
proof -
  have r: "readTemplate failingTemplate = Inr []"
    and p: "parseTemplate failingTemplate [] = Inr (\<lambda>specimens. (''{| class=wikitable'', Some TemplateExecError))"
    and w: "wikiEdit failingTemplate ps = None" for ps
    by (simp_all add: failingTemplate_def sampleServices_def)
  have x: "(\<lambda>specimens. (''{| class=wikitable'', Some TemplateExecError)) (sortSort [lionQ1, lionQ2])
      = (''{| class=wikitable'', Some TemplateExecError)" by simp
  from template_error_discarded [OF r p x] w r show ?thesis by (simp add: editWith_def)
qed

section \<open>The totals of the merged records\<close>

lemma nonNegative_upd:
  "nonNegative m \<Longrightarrow> 0 \<le>s files c \<Longrightarrow> 0 \<le>s subCatsFiles c \<Longrightarrow> nonNegative (m(k \<mapsto> c))"
  by (auto simp: nonNegative_def ran_def)

lemma pageInfo_nonNegative:
  assumes "nonNegative m" "\<forall>n. ci_files p = Some n \<longrightarrow> 0 \<le>s n"
  shows "0 \<le>s files (pageInfo m t p)" "0 \<le>s subCatsFiles (pageInfo m t p)"
  using assms lookupInfo_nonNegative [OF assms(1), of t]
  by (auto simp: pageInfo_def split: option.splits)

lemma pageStep_nonNegative:
  assumes "pageStep env m p = Inr m'" "nonNegative m"
    "\<forall>n. ci_files p = Some n \<longrightarrow> 0 \<le>s n"
    "\<forall>name n. queryCommonsSubcats env name = Inr n \<longrightarrow> 0 \<le>s n"
  shows "nonNegative m'"
proof -
  from assms(1) obtain t where t: "title p = Some t"
    by (auto simp: pageStep_def split: option.splits)
  note i = pageInfo_nonNegative [OF assms(2,3), of t]
  show ?thesis
  proof (cases "0 <s subCats (pageInfo m t p)")
    case True
    with assms(1) t obtain n where n: "queryCommonsSubcats env t = Inr n"
      and m': "m' = m(t \<mapsto> (pageInfo m t p)\<lparr>subCatsFiles := n\<rparr>)"
      by (auto simp: pageStep_def Let_def split: sum.splits)
    have "0 \<le>s n" using assms(4) n by blast
    then show ?thesis unfolding m' using i(1) by (intro nonNegative_upd [OF assms(2)]) simp_all
  next
    case False
    with assms(1) t have m': "m' = m(t \<mapsto> pageInfo m t p)"
      by (auto simp: pageStep_def Let_def)
    show ?thesis unfolding m' using i by (intro nonNegative_upd [OF assms(2)])
  qed
qed

lemma pagesLoop_nonNegative:
  "pagesLoop env ps m = Inr m' \<Longrightarrow> nonNegative m \<Longrightarrow>
   \<forall>p \<in> set ps. \<forall>n. ci_files p = Some n \<longrightarrow> 0 \<le>s n \<Longrightarrow>
   \<forall>name n. queryCommonsSubcats env name = Inr n \<longrightarrow> 0 \<le>s n \<Longrightarrow> nonNegative m'"
proof (induction ps arbitrary: m)
  case Nil
  then show ?case by simp
next
  case (Cons p ps)
  from Cons.prems(1) obtain m1 where s: "pageStep env m p = Inr m1" and l: "pagesLoop env ps m1 = Inr m'"
    by (auto split: sum.splits)
  have "nonNegative m1"
    using pageStep_nonNegative [OF s Cons.prems(2) _ Cons.prems(4)] Cons.prems(3) by simp
  then show ?case using Cons.IH [OF l _ _ Cons.prems(4)] Cons.prems(3) by simp
qed

lemma responsesLoop_nonNegative:
  "responsesLoop env rs m = Inr m' \<Longrightarrow> nonNegative m \<Longrightarrow>
   \<forall>resp \<in> set rs. \<forall>pages. resp = Some pages \<longrightarrow>
      (\<forall>p \<in> set pages. \<forall>n. ci_files p = Some n \<longrightarrow> 0 \<le>s n) \<Longrightarrow>
   \<forall>name n. queryCommonsSubcats env name = Inr n \<longrightarrow> 0 \<le>s n \<Longrightarrow> nonNegative m'"
proof (induction rs arbitrary: m)
  case Nil
  then show ?case by simp
next
  case (Cons r rs)
  from Cons.prems(1) obtain pages m1 where r: "r = Some pages"
    and s: "pagesLoop env pages m = Inr m1" and l: "responsesLoop env rs m1 = Inr m'"
    by (auto split: sum.splits option.splits)
  have "nonNegative m1"
    using pagesLoop_nonNegative [OF s Cons.prems(2) _ Cons.prems(4)] Cons.prems(3) r by simp
  then show ?case using Cons.IH [OF l _ _ Cons.prems(4)] Cons.prems(3) by simp
qed

lemma runQueries_nonNegative:
  "runQueries env qs m = Inr m' \<Longrightarrow> nonNegative m \<Longrightarrow> nonNegativeReports env \<Longrightarrow> nonNegative m'"
proof (induction qs arbitrary: m)
  case Nil
  then show ?case by simp
next
  case (Cons q qs)
  from Cons.prems(1) obtain m1 where s: "queryCommons env m q = Inr m1" and l: "runQueries env qs m1 = Inr m'"
    by (auto split: sum.splits)
  have "nonNegative m1"
    using s Cons.prems(2,3) unfolding queryCommons_def nonNegativeReports_def
    by (elim responsesLoop_nonNegative) blast+
  then show ?case using Cons.IH [OF l _ Cons.prems(3)] by simp
qed

lemma nonNegative_empty: "nonNegative Map.empty"
  by (simp add: nonNegative_def)

lemma fooSubcat_index:
  "runQueries fooSubcat [[''Category:Foo'']] Map.empty = Inr fooIndex"
  by (simp add: fooSubcat_def sampleServices_def queryCommons_def pageStep_def pageInfo_def
      lookupInfo_def zeroInfo_def queryCommonsSubcats_def fooIndex_def word_sless_alt Let_def)

lemma fooSubcat_run:
  "queryWdq fooSubcat [lionQ1, lionQ2] =
     Inr [lionFoo\<lparr>FileCount := 3, SubCats := 1, SubCatsFileCounts := 2, TotalFiles := 5\<rparr>,
          lionQ2\<lparr>FileCount := 0, SubCats := 0, SubCatsFileCounts := 0, TotalFiles := 0\<rparr>]"
  using sample_queryWdq [OF fooSubcat_index [unfolded fooSubcat_def]]
  by (simp add: fooSubcat_def mergeSpecimen_def lookupInfo_def zeroInfo_def fooIndex_def
      lionFoo_def lion_names Let_def)

text \<open>
  Claim C3 as stated fails on the sign: the code stores what the statistics service
  reports. With a reported file count of -1 for the category Foo, the record of Q1
  is emitted with the own file count -1.
\<close>

theorem negative_count_counterexample:
  "ownFileCounts (queryWdq negativeCount [lionQ1, lionQ2]) = [- 1, 0]"
  using sample_queryWdq [OF negativeCount_index [unfolded negativeCount_def]]
  by (simp add: negativeCount_def ownFileCounts_def mergeSpecimen_def lookupInfo_def zeroInfo_def
      lionFoo_def lion_names Let_def)

section \<open>The records that a run sends on\<close>

lemma rangeKeys_distinct: "distinct (rangeKeys env ids)"
  by (simp add: rangeKeys_def)

lemma rangeKeys_set: "set (rangeKeys env ids) = set ids"
  by (simp add: rangeKeys_def)

lemma setGroupCategory_dom: "dom (setGroupCategory g k n) = dom g"
  by (auto simp: setGroupCategory_def split: option.splits)

lemma wdqLoop_dom: "wdqLoop i rows st = Inr st' \<Longrightarrow> dom (byId st') = dom (byId st)"
proof (induction rows arbitrary: i st)
  case Nil
  then show ?case by simp
next
  case (Cons r rows)
  from Cons.prems obtain st1 where r: "wdqRow i r st = Inr st1" and l: "wdqLoop (i + 1) rows st1 = Inr st'"
    by (auto split: sum.splits)
  from wdqRow_byId [OF r] obtain f where "byId st1 = setGroupCategory (byId st) (Itoa (fst f)) (snd f)"
    by blast
  then have "dom (byId st1) = dom (byId st)" by (simp only: setGroupCategory_dom)
  then show ?case using Cons.IH [OF l] by simp
qed

lemma dispatch_loop:
  assumes "dispatch g rows = Inr st"
  shows "\<exists>st1. wdqLoop 0 rows (initState g) = Inr st1 \<and> byId st = byId st1"
  using assms by (auto simp: dispatch_def initState_def split: sum.splits)

text \<open>The keys that \<open>range\<close> visits are the keys of the map, each once.\<close>

lemma range_visits_keys:
  assumes "dispatch (snd (groupLoop specimens ([], Map.empty))) rows = Inr st"
  shows "distinct (rangeKeys env (fst (groupLoop specimens ([], Map.empty)))) \<and>
     set (rangeKeys env (fst (groupLoop specimens ([], Map.empty)))) = dom (byId st)"
proof -
  from dispatch_loop [OF assms] obtain st1 where
    l: "wdqLoop 0 rows (initState (snd (groupLoop specimens ([], Map.empty)))) = Inr st1"
    and b: "byId st = byId st1" by blast
  have "dom (byId st) = groupKey ` set specimens"
    unfolding b wdqLoop_dom [OF l] by (simp add: initState_def groupLoop_dom)
  then show ?thesis by (simp add: rangeKeys_distinct rangeKeys_set groupLoop_ids)
qed

lemma dispatch_byId:
  assumes "dispatch g rows = Inr st"
  shows "lookupGroup (byId st) k = map (resolve rows k) (lookupGroup g k)"
proof -
  from dispatch_loop [OF assms] obtain st1 where
    l: "wdqLoop 0 rows (initState g) = Inr st1" and b: "byId st = byId st1" by blast
  show ?thesis unfolding b wdqLoop_byId [OF l] by (simp add: initState_def)
qed

lemma mset_mapped_groups:
  "distinct ks \<Longrightarrow>
   mset (concat (map (\<lambda>k. map (h k) (filter (\<lambda>s. f s = k) xs)) ks))
     = mset (map (\<lambda>s. h (f s) s) (filter (\<lambda>s. f s \<in> set ks) xs))"
proof (induction ks)
  case Nil
  then show ?case by simp
next
  case (Cons k ks)
  have "mset (map (h k) (filter (\<lambda>s. f s = k) xs))
        + mset (map (\<lambda>s. h (f s) s) (filter (\<lambda>s. f s \<in> set ks) xs))
      = mset (map (\<lambda>s. h (f s) s) (filter (\<lambda>s. f s = k \<or> f s \<in> set ks) xs))"
    using Cons.prems by (induction xs) auto
  then show ?case using Cons by simp
qed

text \<open>
  What a run of \<open>queryWdq\<close> that returns sends on: every record of the catalog once,
  with the category name resolved for its key and the statistics the index holds.
\<close>

lemma queryWdq_passes:
  assumes "queryWdq env specimens = Inr out"
  shows "\<exists>rows (st :: wdqState) m.
     answerRows env specimens rows \<and>
     dispatch (snd (groupLoop specimens ([], Map.empty))) rows = Inr st \<and>
     runQueries env (commonsQueries st) Map.empty = Inr m \<and>
     mset out = mset (map (\<lambda>s. mergeSpecimen m (resolve rows (groupKey s) s)) specimens)"
proof -
  define ids where "ids = fst (groupLoop specimens ([], Map.empty))"
  define g where "g = snd (groupLoop specimens ([], Map.empty))"
  from queryWdq_Inr [OF assms] obtain rows and st :: wdqState and m where
    r: "answerRows env specimens rows"
    and d: "dispatch g rows = Inr st"
    and q: "runQueries env (commonsQueries st) Map.empty = Inr m"
    and o: "out = merger m (byId st) (rangeKeys env ids)"
    unfolding ids_def g_def by blast
  have b: "lookupGroup (byId st) k = map (resolve rows k) (filter (\<lambda>s. groupKey s = k) specimens)" for k
    unfolding dispatch_byId [OF d] g_def by (simp add: groupLoop_groups lookupGroup_empty)
  have ks: "distinct (rangeKeys env ids)" "set (rangeKeys env ids) = groupKey ` set specimens"
    by (simp_all add: rangeKeys_distinct rangeKeys_set ids_def groupLoop_ids)
  have "mset out = mset (concat (map (\<lambda>k. map (\<lambda>s. mergeSpecimen m (resolve rows k s))
        (filter (\<lambda>s. groupKey s = k) specimens)) (rangeKeys env ids)))"
    unfolding o merger_def b by (simp add: comp_def)
  also have "\<dots> = mset (map (\<lambda>s. mergeSpecimen m (resolve rows (groupKey s) s))
        (filter (\<lambda>s. groupKey s \<in> set (rangeKeys env ids)) specimens))"
    by (rule mset_mapped_groups [OF ks(1)])
  also have "filter (\<lambda>s. groupKey s \<in> set (rangeKeys env ids)) specimens = specimens"
    unfolding ks(2) by simp
  finally show ?thesis using r d q unfolding g_def by blast
qed

lemma queryWdq_merge_total:
  assumes "wdqGet env (''ITEMS['' @ Join (fst (groupLoop specimens ([], Map.empty))) '','' @ '']'')
        COMMONS_CAT_PROPERTY = Inr (200, result)"
    and "Status_Error result = ''OK''"
    and "dispatch (snd (groupLoop specimens ([], Map.empty)))
        (lookupRows (Props result) COMMONS_CAT_PROPERTY) = Inr st"
    and "runQueries env (commonsQueries st) Map.empty = Inr categoryMembers"
  shows "queryWdq env specimens =
     Inr (merger categoryMembers (byId st)
       (rangeKeys env (fst (groupLoop specimens ([], Map.empty)))))"
  using assms
  by (cases "groupLoop specimens ([], Map.empty)") (simp add: queryWdq_def)

lemma run_renders:
  "readCsvFile records = Inr specimens \<Longrightarrow> queryWdq env specimens = Inr out \<Longrightarrow>
   run env records = updateWikiPage env out"
  by (simp add: run_def)

lemma merger_missing:
  assumes "r \<in> set (merger m g ks)" "m (CommonsCategoryName r) = None"
  shows "zeroStatistics r"
proof -
  from assms(1) obtain s where r: "r = mergeSpecimen m s" using merger_elem by blast
  have "m (CommonsCategoryName s) = None" using assms(2) r by (simp add: mergeSpecimen_fields)
  then show ?thesis unfolding r by (simp add: mergeSpecimen_missing zeroStatistics_def)
qed

text \<open>
  Claim C4, as the code has it. The Merger has no error path: once WDQ has answered,
  the loop on its rows has succeeded and the Commons queries have returned,
  \<open>queryWdq\<close> returns the merged records. A run that returns sends on every record
  of the catalog exactly once (whatever the order in which \<open>range\<close> visits the
  groups), with the category name resolved for its key and the statistics merged
  from the index, and hands these records to \<open>updateWikiPage\<close>. A record whose
  category name is not a key of the index gets zero for the file count, the
  subcategory count, the aggregated subcategory file count and the total. A record
  with an empty category name is such a record as long as the statistics service
  reported no page with an empty title.
\<close>

theorem missing_category_zero:
  "(wdqGet env (''ITEMS['' @ Join (fst (groupLoop specimens ([], Map.empty))) '','' @ '']'')
        COMMONS_CAT_PROPERTY = Inr (200, result) \<and>
    Status_Error result = ''OK'' \<and>
    dispatch (snd (groupLoop specimens ([], Map.empty)))
        (lookupRows (Props result) COMMONS_CAT_PROPERTY) = Inr st \<and>
    runQueries env (commonsQueries st) Map.empty = Inr categoryMembers \<longrightarrow>
      queryWdq env specimens =
        Inr (merger categoryMembers (byId st)
          (rangeKeys env (fst (groupLoop specimens ([], Map.empty)))))) \<and>
   (queryWdq env specimens = Inr out \<longrightarrow>
      (\<exists>rows (st' :: wdqState) m.
         answerRows env specimens rows \<and>
         dispatch (snd (groupLoop specimens ([], Map.empty))) rows = Inr st' \<and>
         runQueries env (commonsQueries st') Map.empty = Inr m \<and>
         mset out = mset (map (\<lambda>s. mergeSpecimen m (resolve rows (groupKey s) s)) specimens) \<and>
         (\<forall>s. m (CommonsCategoryName s) = None \<longrightarrow>
            mergeSpecimen m s =
              s\<lparr>FileCount := 0, SubCats := 0, SubCatsFileCounts := 0, TotalFiles := 0\<rparr>) \<and>
         (\<forall>r \<in> set out. m (CommonsCategoryName r) = None \<longrightarrow> zeroStatistics r) \<and>
         (noEmptyTitle env \<longrightarrow>
            m [] = None \<and> (\<forall>r \<in> set out. CommonsCategoryName r = [] \<longrightarrow> zeroStatistics r)))) \<and>
   (readCsvFile records = Inr specimens \<and> queryWdq env specimens = Inr out \<longrightarrow>
      run env records = updateWikiPage env out)"
proof (intro conjI impI)
  assume "wdqGet env (''ITEMS['' @ Join (fst (groupLoop specimens ([], Map.empty))) '','' @ '']'')
        COMMONS_CAT_PROPERTY = Inr (200, result) \<and>
    Status_Error result = ''OK'' \<and>
    dispatch (snd (groupLoop specimens ([], Map.empty)))
        (lookupRows (Props result) COMMONS_CAT_PROPERTY) = Inr st \<and>
    runQueries env (commonsQueries st) Map.empty = Inr categoryMembers"
  then show "queryWdq env specimens =
        Inr (merger categoryMembers (byId st)
          (rangeKeys env (fst (groupLoop specimens ([], Map.empty)))))"
    using queryWdq_merge_total by blast
next
  assume q: "queryWdq env specimens = Inr out"
  from queryWdq_Inr [OF q] obtain rows and st' :: wdqState and m where
    r: "answerRows env specimens rows"
    and d: "dispatch (snd (groupLoop specimens ([], Map.empty))) rows = Inr st'"
    and i: "runQueries env (commonsQueries st') Map.empty = Inr m"
    and o: "out = merger m (byId st') (rangeKeys env (fst (groupLoop specimens ([], Map.empty))))"
    by blast
  have p: "mset out = mset (map (\<lambda>s. mergeSpecimen m (resolve rows (groupKey s) s)) specimens)"
  proof -
    define ids where "ids = fst (groupLoop specimens ([], Map.empty))"
    have b: "lookupGroup (byId st') k = map (resolve rows k) (filter (\<lambda>s. groupKey s = k) specimens)" for k
      unfolding dispatch_byId [OF d] by (simp add: groupLoop_groups lookupGroup_empty)
    have ks: "distinct (rangeKeys env ids)" "set (rangeKeys env ids) = groupKey ` set specimens"
      by (simp_all add: rangeKeys_distinct rangeKeys_set ids_def groupLoop_ids)
    have "mset out = mset (concat (map (\<lambda>k. map (\<lambda>s. mergeSpecimen m (resolve rows k s))
          (filter (\<lambda>s. groupKey s = k) specimens)) (rangeKeys env ids)))"
      unfolding o merger_def b ids_def by (simp add: comp_def)
    also have "\<dots> = mset (map (\<lambda>s. mergeSpecimen m (resolve rows (groupKey s) s))
          (filter (\<lambda>s. groupKey s \<in> set (rangeKeys env ids)) specimens))"
      by (rule mset_mapped_groups [OF ks(1)])
    also have "filter (\<lambda>s. groupKey s \<in> set (rangeKeys env ids)) specimens = specimens"
      unfolding ks(2) by simp
    finally show ?thesis .
  qed
  have z: "\<forall>s. m (CommonsCategoryName s) = None \<longrightarrow>
      mergeSpecimen m s = s\<lparr>FileCount := 0, SubCats := 0, SubCatsFileCounts := 0, TotalFiles := 0\<rparr>"
    by (simp add: mergeSpecimen_missing)
  have a: "\<forall>r \<in> set out. m (CommonsCategoryName r) = None \<longrightarrow> zeroStatistics r"
    unfolding o using merger_missing by blast
  have e: "noEmptyTitle env \<longrightarrow>
      m [] = None \<and> (\<forall>r \<in> set out. CommonsCategoryName r = [] \<longrightarrow> zeroStatistics r)"
  proof
    assume "noEmptyTitle env"
    then have "m [] = None" using runQueries_empty_title [OF i] by simp
    then show "m [] = None \<and> (\<forall>r \<in> set out. CommonsCategoryName r = [] \<longrightarrow> zeroStatistics r)"
      using a by simp
  qed
  show "\<exists>rows (st' :: wdqState) m.
         answerRows env specimens rows \<and>
         dispatch (snd (groupLoop specimens ([], Map.empty))) rows = Inr st' \<and>
         runQueries env (commonsQueries st') Map.empty = Inr m \<and>
         mset out = mset (map (\<lambda>s. mergeSpecimen m (resolve rows (groupKey s) s)) specimens) \<and>
         (\<forall>s. m (CommonsCategoryName s) = None \<longrightarrow>
            mergeSpecimen m s =
              s\<lparr>FileCount := 0, SubCats := 0, SubCatsFileCounts := 0, TotalFiles := 0\<rparr>) \<and>
         (\<forall>r \<in> set out. m (CommonsCategoryName r) = None \<longrightarrow> zeroStatistics r) \<and>
         (noEmptyTitle env \<longrightarrow>
            m [] = None \<and> (\<forall>r \<in> set out. CommonsCategoryName r = [] \<longrightarrow> zeroStatistics r))"
    using r d i p z a e by blast
next
  assume "readCsvFile records = Inr specimens \<and> queryWdq env specimens = Inr out"
  then show "run env records = updateWikiPage env out" by (simp add: run_renders)
qed

lemma merger_carries:
  assumes "r \<in> set (merger m g ks)"
  shows "carriesIndex m r"
proof -
  from assms obtain s where r: "r = mergeSpecimen m s" using merger_elem by blast
  show ?thesis unfolding r carriesIndex_def by (simp add: mergeSpecimen_fields)
qed

lemma merger_groups:
  "merger m g ks = map (mergeSpecimen m) (concat (map (lookupGroup g) ks))"
  by (simp add: merger_def map_concat comp_def)

text \<open>
  Claim C3, as the code has it. The Merger emits the records of the visited groups,
  each with the file count, the subcategory count and the aggregated subcategory
  file count that the index holds for the record's category name (zero when the name
  is absent), copied without a check of their sign, and with their total: the total
  file count is the own file count plus the aggregated subcategory file count, in
  Go's \<open>int\<close> addition, and their sum as integers when the two are not negative and
  it is below \<open>2^63\<close>. The two counts are not negative whenever the numbers in the
  index are not negative. A run of \<open>queryWdq\<close> that returns emits every record of
  the catalog once, with these properties for the index the run has built, and with
  counts that are not negative whenever the statistics service reports no negative
  file count and no subcategory sum wraps around.
\<close>

theorem merged_totals:
  "merger categoryMembers groups ks
     = map (mergeSpecimen categoryMembers) (concat (map (lookupGroup groups) ks)) \<and>
   (\<forall>r \<in> set (merger categoryMembers groups ks).
     carriesIndex categoryMembers r \<and>
     TotalFiles r = FileCount r + SubCatsFileCounts r \<and>
     (nonNegative categoryMembers \<longrightarrow> 0 \<le>s FileCount r \<and> 0 \<le>s SubCatsFileCounts r) \<and>
     (0 \<le>s FileCount r \<and> 0 \<le>s SubCatsFileCounts r \<and>
        sint (FileCount r) + sint (SubCatsFileCounts r) < 2 ^ 63 \<longrightarrow>
      sint (TotalFiles r) = sint (FileCount r) + sint (SubCatsFileCounts r))) \<and>
   (queryWdq env specimens = Inr out \<longrightarrow>
      (\<exists>rows (st :: wdqState) m.
         answerRows env specimens rows \<and>
         dispatch (snd (groupLoop specimens ([], Map.empty))) rows = Inr st \<and>
         runQueries env (commonsQueries st) Map.empty = Inr m \<and>
         mset out = mset (map (\<lambda>s. mergeSpecimen m (resolve rows (groupKey s) s)) specimens) \<and>
         (\<forall>r \<in> set out.
            carriesIndex m r \<and>
            TotalFiles r = FileCount r + SubCatsFileCounts r \<and>
            (nonNegativeReports env \<longrightarrow> 0 \<le>s FileCount r \<and> 0 \<le>s SubCatsFileCounts r))))"
proof (intro conjI impI)
  show "merger categoryMembers groups ks
     = map (mergeSpecimen categoryMembers) (concat (map (lookupGroup groups) ks))"
    by (rule merger_groups)
next
  show "\<forall>r \<in> set (merger categoryMembers groups ks).
     carriesIndex categoryMembers r \<and>
     TotalFiles r = FileCount r + SubCatsFileCounts r \<and>
     (nonNegative categoryMembers \<longrightarrow> 0 \<le>s FileCount r \<and> 0 \<le>s SubCatsFileCounts r) \<and>
     (0 \<le>s FileCount r \<and> 0 \<le>s SubCatsFileCounts r \<and>
        sint (FileCount r) + sint (SubCatsFileCounts r) < 2 ^ 63 \<longrightarrow>
      sint (TotalFiles r) = sint (FileCount r) + sint (SubCatsFileCounts r))"
    using merger_totals [of categoryMembers groups ks] merger_carries [of _ categoryMembers groups ks]
    by blast
next
  assume q: "queryWdq env specimens = Inr out"
  from queryWdq_passes [OF q] obtain rows and st :: wdqState and m where
    r: "answerRows env specimens rows"
    and d: "dispatch (snd (groupLoop specimens ([], Map.empty))) rows = Inr st"
    and i: "runQueries env (commonsQueries st) Map.empty = Inr m"
    and p: "mset out = mset (map (\<lambda>s. mergeSpecimen m (resolve rows (groupKey s) s)) specimens)"
    by blast
  have c: "\<forall>r \<in> set out. carriesIndex m r"
  proof
    fix r
    assume "r \<in> set out"
    then have "r \<in># mset out" by simp
    then have "r \<in> set (map (\<lambda>s. mergeSpecimen m (resolve rows (groupKey s) s)) specimens)"
      unfolding p by simp
    then obtain s where "r = mergeSpecimen m (resolve rows (groupKey s) s)" by auto
    then show "carriesIndex m r" by (simp add: carriesIndex_def mergeSpecimen_fields)
  qed
  have t: "\<forall>r \<in> set out. TotalFiles r = FileCount r + SubCatsFileCounts r"
    using c by (simp add: carriesIndex_def)
  have n: "nonNegativeReports env \<longrightarrow> (\<forall>r \<in> set out. 0 \<le>s FileCount r \<and> 0 \<le>s SubCatsFileCounts r)"
  proof
    assume "nonNegativeReports env"
    then have "nonNegative m" using runQueries_nonNegative [OF i nonNegative_empty] by blast
    then show "\<forall>r \<in> set out. 0 \<le>s FileCount r \<and> 0 \<le>s SubCatsFileCounts r"
      using c lookupInfo_nonNegative by (simp add: carriesIndex_def)
  qed
  show "\<exists>rows (st :: wdqState) m.
         answerRows env specimens rows \<and>
         dispatch (snd (groupLoop specimens ([], Map.empty))) rows = Inr st \<and>
         runQueries env (commonsQueries st) Map.empty = Inr m \<and>
         mset out = mset (map (\<lambda>s. mergeSpecimen m (resolve rows (groupKey s) s)) specimens) \<and>
         (\<forall>r \<in> set out.
            carriesIndex m r \<and>
            TotalFiles r = FileCount r + SubCatsFileCounts r \<and>
            (nonNegativeReports env \<longrightarrow> 0 \<le>s FileCount r \<and> 0 \<le>s SubCatsFileCounts r))"
    using r d i p c t n by blast
qed

theorem merged_totals_witness:
  "nonNegativeReports fooSubcat \<and>
   queryWdq fooSubcat [lionQ1, lionQ2] =
     Inr [lionFoo\<lparr>FileCount := 3, SubCats := 1, SubCatsFileCounts := 2, TotalFiles := 5\<rparr>,
          lionQ2\<lparr>FileCount := 0, SubCats := 0, SubCatsFileCounts := 0, TotalFiles := 0\<rparr>] \<and>
   nonNegative fooIndex \<and>
   carriesIndex fooIndex (lionFoo\<lparr>FileCount := 3, SubCats := 1, SubCatsFileCounts := 2, TotalFiles := 5\<rparr>) \<and>
   0 \<le>s FileCount (lionFoo\<lparr>FileCount := 3, SubCats := 1, SubCatsFileCounts := 2, TotalFiles := 5\<rparr>) \<and>
   TotalFiles (lionFoo\<lparr>FileCount := 3, SubCats := 1, SubCatsFileCounts := 2, TotalFiles := 5\<rparr>) = 3 + 2 \<and>
   sint (TotalFiles (lionFoo\<lparr>FileCount := 3, SubCats := 1, SubCatsFileCounts := 2, TotalFiles := 5\<rparr>)) = 5"
proof -
  have s: "queryCommonsSubcats fooSubcat name = Inr 2" for name
    by (simp add: queryCommonsSubcats_def fooSubcat_def sampleServices_def)
  have r: "nonNegativeReports fooSubcat"
    unfolding nonNegativeReports_def s
    by (simp add: fooSubcat_def sampleServices_def word_sle_eq)
  have n: "nonNegative fooIndex" by (simp add: nonNegative_def fooIndex_def word_sle_eq)
  have m: "lionFoo\<lparr>FileCount := 3, SubCats := 1, SubCatsFileCounts := 2, TotalFiles := 5\<rparr>
      \<in> set (merger fooIndex [''1'' \<mapsto> [lionFoo], ''2'' \<mapsto> [lionQ2]] [''2'', ''1''])"
    by (simp add: merger_lions)
  note t = merged_totals [of fooIndex "[''1'' \<mapsto> [lionFoo], ''2'' \<mapsto> [lionQ2]]" "[''2'', ''1'']"
      fooSubcat "[lionQ1, lionQ2]"
      "[lionFoo\<lparr>FileCount := 3, SubCats := 1, SubCatsFileCounts := 2, TotalFiles := 5\<rparr>,
        lionQ2\<lparr>FileCount := 0, SubCats := 0, SubCatsFileCounts := 0, TotalFiles := 0\<rparr>]"]
  note b = bspec [OF t [THEN conjunct2, THEN conjunct1] m]
  have c: "carriesIndex fooIndex (lionFoo\<lparr>FileCount := 3, SubCats := 1, SubCatsFileCounts := 2, TotalFiles := 5\<rparr>)"
    using b by blast
  have p: "0 \<le>s FileCount (lionFoo\<lparr>FileCount := 3, SubCats := 1, SubCatsFileCounts := 2, TotalFiles := 5\<rparr>)"
    using b n by blast
  have e: "TotalFiles (lionFoo\<lparr>FileCount := 3, SubCats := 1, SubCatsFileCounts := 2, TotalFiles := 5\<rparr>) = 3 + 2"
    using b by simp
  have i: "sint (TotalFiles (lionFoo\<lparr>FileCount := 3, SubCats := 1, SubCatsFileCounts := 2, TotalFiles := 5\<rparr>)) = 5"
    using b n by simp
  show ?thesis using r fooSubcat_run n c p e i by blast
qed

lemma fooOnly_index:
  "runQueries fooOnly [[''Category:Foo'']] Map.empty
     = Inr [''Category:Foo'' \<mapsto> \<lparr>files = 3, subCats = 0, subCatsFiles = 0\<rparr>]"
  unfolding fooOnly_def by (rule fooServices_index)

lemma fooOnly_run:
  "queryWdq fooOnly [lionQ1, lionQ2] =
     Inr [lionFoo\<lparr>FileCount := 3, SubCats := 0, SubCatsFileCounts := 0, TotalFiles := 3\<rparr>,
          lionQ2\<lparr>FileCount := 0, SubCats := 0, SubCatsFileCounts := 0, TotalFiles := 0\<rparr>]"
  using sample_queryWdq [OF fooServices_index]
  by (simp add: fooOnly_def mergeSpecimen_def lookupInfo_def zeroInfo_def lionFoo_def lion_names Let_def)

theorem missing_category_zero_witness:
  "noEmptyTitle fooOnly \<and>
   readCsvFile catalog = Inr [lionQ1, lionQ2] \<and>
   (\<exists>st. dispatch (snd (groupLoop [lionQ1, lionQ2] ([], Map.empty))) [fooItem] = Inr st \<and>
      queryWdq fooOnly [lionQ1, lionQ2] =
        Inr (merger [''Category:Foo'' \<mapsto> \<lparr>files = 3, subCats = 0, subCatsFiles = 0\<rparr>] (byId st)
          (rangeKeys fooOnly (fst (groupLoop [lionQ1, lionQ2] ([], Map.empty)))))) \<and>
   queryWdq fooOnly [lionQ1, lionQ2]
     = Inr [lionFoo\<lparr>FileCount := 3, SubCats := 0, SubCatsFileCounts := 0, TotalFiles := 3\<rparr>,
            lionQ2\<lparr>FileCount := 0, SubCats := 0, SubCatsFileCounts := 0, TotalFiles := 0\<rparr>] \<and>
   run fooOnly catalog
     = updateWikiPage fooOnly
         [lionFoo\<lparr>FileCount := 3, SubCats := 0, SubCatsFileCounts := 0, TotalFiles := 3\<rparr>,
          lionQ2\<lparr>FileCount := 0, SubCats := 0, SubCatsFileCounts := 0, TotalFiles := 0\<rparr>] \<and>
   CommonsCategoryName (lionQ2\<lparr>FileCount := 0, SubCats := 0, SubCatsFileCounts := 0, TotalFiles := 0\<rparr>) = [] \<and>
   zeroStatistics (lionQ2\<lparr>FileCount := 0, SubCats := 0, SubCatsFileCounts := 0, TotalFiles := 0\<rparr>)"
proof -
  let ?out = "[lionFoo\<lparr>FileCount := 3, SubCats := 0, SubCatsFileCounts := 0, TotalFiles := 3\<rparr>,
            lionQ2\<lparr>FileCount := 0, SubCats := 0, SubCatsFileCounts := 0, TotalFiles := 0\<rparr>]"
  let ?g = "snd (groupLoop [lionQ1, lionQ2] ([], Map.empty))"
  let ?res = "\<lparr>Status_Error = ''OK'', Props = [''373'' \<mapsto> [fooItem]]\<rparr>"
  let ?st = "\<lparr>byId = setGroupCategory ?g ''1'' ''Foo'', categoryNames = [''Category:Foo''], cursor = 0,
          commonsQueries = [[''Category:Foo'']]\<rparr>"
  let ?idx = "[''Category:Foo'' \<mapsto> \<lparr>files = 3, subCats = 0, subCatsFiles = 0\<rparr>]"
  have n: "noEmptyTitle fooOnly" by (simp add: noEmptyTitle_def fooOnly_def sampleServices_def)
  note t = missing_category_zero [of fooOnly "[lionQ1, lionQ2]" ?res ?st ?idx ?out catalog]
  have w: "wdqGet fooOnly (''ITEMS['' @ Join (fst (groupLoop [lionQ1, lionQ2] ([], Map.empty))) '','' @ '']'')
      COMMONS_CAT_PROPERTY = Inr (200, ?res)"
    by (simp add: fooOnly_def sampleServices_def)
  have s: "Status_Error ?res = ''OK''" by simp
  have l: "lookupRows (Props ?res) COMMONS_CAT_PROPERTY = [fooItem]"
    by (simp add: lookupRows_def COMMONS_CAT_PROPERTY_def)
  have d: "dispatch ?g (lookupRows (Props ?res) COMMONS_CAT_PROPERTY) = Inr ?st"
    unfolding l by (rule dispatch_foo)
  have i: "runQueries fooOnly (commonsQueries ?st) Map.empty = Inr ?idx"
    using fooOnly_index by simp
  have q0: "queryWdq fooOnly [lionQ1, lionQ2] =
      Inr (merger ?idx (byId ?st) (rangeKeys fooOnly (fst (groupLoop [lionQ1, lionQ2] ([], Map.empty)))))"
    using mp [OF t [THEN conjunct1]] w s d i by simp
  have x: "\<exists>st. dispatch ?g [fooItem] = Inr st \<and>
      queryWdq fooOnly [lionQ1, lionQ2] =
        Inr (merger ?idx (byId st) (rangeKeys fooOnly (fst (groupLoop [lionQ1, lionQ2] ([], Map.empty)))))"
    by (rule exI [of _ ?st]) (use q0 dispatch_foo [of ?g] in simp)
  note y = mp [OF t [THEN conjunct2, THEN conjunct1] fooOnly_run]
  have e: "\<forall>r \<in> set ?out. CommonsCategoryName r = [] \<longrightarrow> zeroStatistics r"
    using y n by (elim exE conjE) simp
  have z: "zeroStatistics (lionQ2\<lparr>FileCount := 0, SubCats := 0, SubCatsFileCounts := 0, TotalFiles := 0\<rparr>)"
    using e by (simp add: lion_names)
  have u: "run fooOnly catalog = updateWikiPage fooOnly ?out"
    using mp [OF t [THEN conjunct2, THEN conjunct2]] fooOnly_run catalog_read by simp
  have c: "CommonsCategoryName (lionQ2\<lparr>FileCount := 0, SubCats := 0, SubCatsFileCounts := 0, TotalFiles := 0\<rparr>) = []"
    by (simp add: lion_names)
  show ?thesis by (intro conjI n catalog_read x fooOnly_run u c z)
qed

section \<open>Category names reported for several items\<close>

lemma pageStep_dom:
  assumes "pageStep env m p = Inr m'"
  shows "\<exists>t. title p = Some t \<and> dom m' = insert t (dom m)"
  using assms
  by (auto simp: pageStep_def Let_def split: option.splits sum.splits if_splits)

lemma pagesLoop_dom:
  "pagesLoop env ps m = Inr m' \<Longrightarrow>
   dom m' = dom m \<union> set (concat (map (\<lambda>p. case title p of None \<Rightarrow> [] | Some t \<Rightarrow> [t]) ps))"
proof (induction ps arbitrary: m)
  case Nil
  then show ?case by simp
next
  case (Cons p ps)
  from Cons.prems obtain m1 where s: "pageStep env m p = Inr m1" and l: "pagesLoop env ps m1 = Inr m'"
    by (auto split: sum.splits)
  from pageStep_dom [OF s] obtain t where t: "title p = Some t" and d: "dom m1 = insert t (dom m)"
    by blast
  show ?case unfolding Cons.IH [OF l] d using t by auto
qed

lemma responsesLoop_dom:
  "responsesLoop env rs m = Inr m' \<Longrightarrow> dom m' = dom m \<union> set (reportedTitles rs)"
proof (induction rs arbitrary: m)
  case Nil
  then show ?case by (simp add: reportedTitles_def)
next
  case (Cons r rs)
  from Cons.prems obtain pages m1 where r: "r = Some pages"
    and s: "pagesLoop env pages m = Inr m1" and l: "responsesLoop env rs m1 = Inr m'"
    by (auto split: sum.splits option.splits)
  show ?case
    unfolding Cons.IH [OF l] pagesLoop_dom [OF s] using r by (auto simp: reportedTitles_def)
qed

lemma queryCommons_dom:
  "queryCommons env m names = Inr m' \<Longrightarrow>
   dom m' = dom m \<union> set (reportedTitles (commonsCategoryinfo env (Join names ''|'')))"
  unfolding queryCommons_def by (rule responsesLoop_dom)

lemma pageStep_writes:
  assumes "pageStep env m p = Inr m'" "title p = Some t"
  shows "\<exists>c. m' t = Some c \<and>
     files c = (case ci_files p of Some x \<Rightarrow> x | None \<Rightarrow> 0) \<and>
     subCats c = (case ci_subcats p of Some x \<Rightarrow> x | None \<Rightarrow> 0)"
proof (cases "0 <s subCats (pageInfo m t p)")
  case True
  from pageStep_positive [OF assms True] show ?thesis by (auto simp: pageInfo_def)
next
  case False
  from pageStep_not_positive [OF assms False] show ?thesis by (simp add: pageInfo_def)
qed

text \<open>
  Claim C2, as the code has it. The loop appends one name per row of the WDQ answer
  and removes no duplicate: a category name reported in \<open>k\<close> rows (for \<open>k\<close> Wikidata
  items) is handed to the \<open>queryCommons\<close> tasks \<open>k\<close> times. In the index, a map
  keyed by the category name, every page of an answer that reports a name writes the
  entry of that name, with the page's file and subcategory counts in place of the
  earlier ones, and leaves the entries of all other names as they were; after a
  query the keys of the index are the keys it had and the titles the answers
  reported: the index holds one entry for the name however many times it was
  queried.
\<close>

theorem duplicate_names_queried:
  "((\<forall>r \<in> set rows. rowOk r) \<longrightarrow>
      timesQueried n (dispatch groups rows) = count_list (map rowCategory rows) n) \<and>
   (pageStep env categoryMembers p = Inr m' \<and> title p = Some t \<longrightarrow>
      (\<exists>c. m' t = Some c \<and>
           files c = (case ci_files p of Some x \<Rightarrow> x | None \<Rightarrow> 0) \<and>
           subCats c = (case ci_subcats p of Some x \<Rightarrow> x | None \<Rightarrow> 0)) \<and>
      (\<forall>k. k \<noteq> t \<longrightarrow> m' k = categoryMembers k)) \<and>
   (queryCommons env m0 names = Inr m1 \<longrightarrow>
      dom m1 = dom m0 \<union> set (reportedTitles (commonsCategoryinfo env (Join names ''|''))))"
proof (intro conjI impI allI)
  assume ok: "\<forall>r \<in> set rows. rowOk r"
  from dispatch_chunks [OF ok, of groups] obtain st where
    "dispatch groups rows = Inr st" "concat (commonsQueries st) = map rowCategory rows"
    by blast
  then show "timesQueried n (dispatch groups rows) = count_list (map rowCategory rows) n"
    by (simp add: timesQueried_def)
next
  assume "pageStep env categoryMembers p = Inr m' \<and> title p = Some t"
  then show "\<exists>c. m' t = Some c \<and>
           files c = (case ci_files p of Some x \<Rightarrow> x | None \<Rightarrow> 0) \<and>
           subCats c = (case ci_subcats p of Some x \<Rightarrow> x | None \<Rightarrow> 0)"
    using pageStep_writes by blast
next
  fix k
  assume a: "pageStep env categoryMembers p = Inr m' \<and> title p = Some t" and k: "k \<noteq> t"
  then have "title p \<noteq> Some k" by auto
  then show "m' k = categoryMembers k" using pageStep_other a by blast
next
  assume "queryCommons env m0 names = Inr m1"
  then show "dom m1 = dom m0 \<union> set (reportedTitles (commonsCategoryinfo env (Join names ''|'')))"
    by (rule queryCommons_dom)
qed

lemma fooPage_step:
  "pageStep fooOnly [''Category:Foo'' \<mapsto> \<lparr>files = 3, subCats = 0, subCatsFiles = 0\<rparr>] (fooPage 4)
     = Inr [''Category:Foo'' \<mapsto> \<lparr>files = 4, subCats = 0, subCatsFiles = 0\<rparr>]"
  by (simp add: pageStep_def pageInfo_def lookupInfo_def fooPage_def)

theorem duplicate_names_queried_witness:
  "list_all rowOk [[JNumber 1, JOther, JString ''Foo''], [JNumber 2, JOther, JString ''Foo'']] \<and>
   timesQueried ''Category:Foo''
     (dispatch Map.empty [[JNumber 1, JOther, JString ''Foo''], [JNumber 2, JOther, JString ''Foo'']]) = 2 \<and>
   pageStep fooOnly [''Category:Foo'' \<mapsto> \<lparr>files = 3, subCats = 0, subCatsFiles = 0\<rparr>] (fooPage 4)
     = Inr [''Category:Foo'' \<mapsto> \<lparr>files = 4, subCats = 0, subCatsFiles = 0\<rparr>] \<and>
   title (fooPage 4) = Some ''Category:Foo'' \<and>
   files \<lparr>files = 4, subCats = 0, subCatsFiles = 0\<rparr> = 4 \<and>
   queryCommons fooOnly Map.empty [''Category:Foo'', ''Category:Foo'']
     = Inr [''Category:Foo'' \<mapsto> \<lparr>files = 3, subCats = 0, subCatsFiles = 0\<rparr>] \<and>
   dom [''Category:Foo'' \<mapsto> \<lparr>files = 3, subCats = 0, subCatsFiles = 0\<rparr>] = {''Category:Foo''}"
proof -
  have h: "\<forall>r \<in> set [[JNumber 1, JOther, JString ''Foo''], [JNumber 2, JOther, JString ''Foo'']]. rowOk r"
    by (simp add: rowOk_def rowFields_def index_def)
  have tp: "title (fooPage 4) = Some ''Category:Foo''" by (simp add: fooPage_def)
  note t = duplicate_names_queried
    [of "[[JNumber 1, JOther, JString ''Foo''], [JNumber 2, JOther, JString ''Foo'']]"
       "''Category:Foo''" Map.empty fooOnly
       "[''Category:Foo'' \<mapsto> \<lparr>files = 3, subCats = 0, subCatsFiles = 0\<rparr>]" "fooPage 4"
       "[''Category:Foo'' \<mapsto> \<lparr>files = 4, subCats = 0, subCatsFiles = 0\<rparr>]" "''Category:Foo''"
       Map.empty "[''Category:Foo'', ''Category:Foo'']"
       "[''Category:Foo'' \<mapsto> \<lparr>files = 3, subCats = 0, subCatsFiles = 0\<rparr>]"]
  have q: "timesQueried ''Category:Foo''
     (dispatch Map.empty [[JNumber 1, JOther, JString ''Foo''], [JNumber 2, JOther, JString ''Foo'']]) = 2"
    using mp [OF t [THEN conjunct1] h]
    by (simp add: rowCategory_def rowFields_def index_def CATEGORY_NAMESPACE_def)
  have "\<exists>c. [''Category:Foo'' \<mapsto> \<lparr>files = 4, subCats = 0, subCatsFiles = 0\<rparr>] ''Category:Foo'' = Some c \<and>
      files c = (case ci_files (fooPage 4) of Some x \<Rightarrow> x | None \<Rightarrow> 0) \<and>
      subCats c = (case ci_subcats (fooPage 4) of Some x \<Rightarrow> x | None \<Rightarrow> 0)"
    using mp [OF t [THEN conjunct2, THEN conjunct1]] fooPage_step tp by simp
  then have f: "files \<lparr>files = 4, subCats = 0, subCatsFiles = 0\<rparr> = 4"
    by (simp add: fooPage_def)
  have l: "list_all rowOk [[JNumber 1, JOther, JString ''Foo''], [JNumber 2, JOther, JString ''Foo'']]"
    using h by (simp add: list_all_iff)
  have c: "queryCommons fooOnly Map.empty [''Category:Foo'', ''Category:Foo'']
      = Inr [''Category:Foo'' \<mapsto> \<lparr>files = 3, subCats = 0, subCatsFiles = 0\<rparr>]"
    by (simp add: fooOnly_def sampleServices_def queryCommons_def pageStep_def pageInfo_def
        lookupInfo_def zeroInfo_def)
  have r: "reportedTitles (commonsCategoryinfo fooOnly (Join [''Category:Foo'', ''Category:Foo''] ''|''))
      = [''Category:Foo'']"
    by (simp add: reportedTitles_def fooOnly_def sampleServices_def)
  have d: "dom [''Category:Foo'' \<mapsto> \<lparr>files = 3, subCats = 0, subCatsFiles = 0\<rparr>] = {''Category:Foo''}"
    using mp [OF t [THEN conjunct2, THEN conjunct2] c] unfolding r by simp
  show ?thesis by (intro conjI l q fooPage_step tp f c d)
qed

text \<open>
  Claim C2 as stated fails: two specimens of the Wikidata items Q1 and Q2, both
  resolved to the category Foo; the name is queried twice.
\<close>

theorem duplicate_names_counterexample:
  "timesQueried ''Category:Foo''
     (dispatch (snd (groupLoop [lionQ1, lionQ2] ([], Map.empty)))
        [[JNumber 1, JOther, JString ''Foo''], [JNumber 2, JOther, JString ''Foo'']]) = 2"
  by (simp add: timesQueried_def dispatch_def wdqRow_def rowFields_def index_def slice_def
      CATEGORY_NAMESPACE_def Let_def)

end
